theory Spec2Isabelle
  imports Main
begin

section \<open>Documents and collections\<close>

text \<open>
  The backend keeps five collections of documents (\<^verbatim>\<open>users\<close>, \<^verbatim>\<open>books\<close>,
  \<^verbatim>\<open>bookCopies\<close>, \<^verbatim>\<open>loans\<close>, \<^verbatim>\<open>notifications\<close>). The document types follow
  the interfaces \<^verbatim>\<open>UserDocument\<close>, \<^verbatim>\<open>BookDocument\<close>, \<^verbatim>\<open>BookCopyDocument\<close> and
  \<^verbatim>\<open>LoanDocument\<close> and the object literals of the controllers.

  Every stored date is an ISO string produced by \<^verbatim>\<open>toISOString()\<close>; the handlers only
  ever read such a string back through \<^verbatim>\<open>new Date(...)\<close> and compare the instants, so a
  stored date is modelled by its instant in milliseconds since the epoch.
  \<^verbatim>\<open>reminderCount\<close> is a JavaScript number that only \<^verbatim>\<open>sendOverdueReminder\<close> writes
  (as the previous count plus one, starting from an absent field); it is a natural number
  here, which is exact below \<open>2^53\<close>.
  Of a user and of a book only the fields that the modelled handlers read are kept.
\<close>

type_synonym time = int

datatype loan_status = BORROWED | RETURNED | OVERDUE

datatype copy_status = AVAILABLE | BORROWED_COPY | MAINTENANCE

datatype role = USER | STAFF | ADMIN

datatype notification_type = LOAN_CREATED | OVERDUE_REMINDER | PASSWORD_RESET_REQUEST

record user =
  user_id :: string
  name :: string
  email :: string
  role :: role

record book =
  book_id :: string
  book_title :: string
  book_author :: string
  isActive :: bool

record copy =
  copy_id :: string
  copy_bookId :: string
  copyCode :: string
  copy_status :: copy_status
  copy_createdAt :: time
  copy_updatedAt :: time

record loan =
  loan_id :: string
  userId :: string
  bookId :: string
  copyId :: string
  borrowDate :: time
  dueDate :: time
  returnDate :: "time option"
  status :: loan_status
  reminderSent :: bool
  reminderCount :: "nat option"
  lastReminderAt :: "time option"
  createdAt :: time
  updatedAt :: time

record notification =
  n_id :: string
  n_userId :: string
  n_loanId :: "string option"
  n_bookId :: "string option"
  n_type :: notification_type
  title :: string
  message :: string
  bookTitle :: "string option"
  bookAuthor :: "string option"
  n_dueDate :: "time option"
  isRead :: bool
  n_createdAt :: time

record db =
  users :: "user list"
  books :: "book list"
  bookCopies :: "copy list"
  loans :: "loan list"
  notifications :: "notification list"

text \<open>The token payload \<^verbatim>\<open>JwtPayload\<close> that the authentication middleware puts in \<^verbatim>\<open>req.user\<close>.\<close>

record jwt_payload =
  jwt_userId :: string
  jwt_email :: string
  jwt_role :: role

text \<open>
  What a handler sends: a status code with a body, or a status code with an error message.
\<close>

datatype 'a response = Reply nat 'a | Failure nat string

subsection \<open>The collection operations the handlers call\<close>

text \<open>
  A collection is the list of its documents in natural order. \<^verbatim>\<open>findOne\<close> returns the
  first document that matches the filter, \<^verbatim>\<open>updateOne\<close> changes the first match and
  \<^verbatim>\<open>updateMany\<close> every match, \<^verbatim>\<open>deleteOne\<close> removes the first match and
  \<^verbatim>\<open>deleteMany\<close> every match. \<^verbatim>\<open>insertOne\<close> appends, and throws (here: \<open>None\<close>) when
  a document with the same \<^verbatim>\<open>_id\<close> is already stored.
\<close>

definition findOne :: "('a \<Rightarrow> bool) \<Rightarrow> 'a list \<Rightarrow> 'a option" where
  "findOne P xs = find P xs"

fun updateOne :: "('a \<Rightarrow> bool) \<Rightarrow> ('a \<Rightarrow> 'a) \<Rightarrow> 'a list \<Rightarrow> 'a list" where
  "updateOne P f [] = []"
| "updateOne P f (x # xs) = (if P x then f x # xs else x # updateOne P f xs)"

definition updateMany :: "('a \<Rightarrow> bool) \<Rightarrow> ('a \<Rightarrow> 'a) \<Rightarrow> 'a list \<Rightarrow> 'a list" where
  "updateMany P f xs = map (\<lambda>x. if P x then f x else x) xs"

fun deleteOne :: "('a \<Rightarrow> bool) \<Rightarrow> 'a list \<Rightarrow> 'a list" where
  "deleteOne P [] = []"
| "deleteOne P (x # xs) = (if P x then xs else x # deleteOne P xs)"

definition deleteMany :: "('a \<Rightarrow> bool) \<Rightarrow> 'a list \<Rightarrow> 'a list" where
  "deleteMany P xs = filter (\<lambda>x. \<not> P x) xs"

definition insertOne :: "('a \<Rightarrow> string) \<Rightarrow> 'a \<Rightarrow> 'a list \<Rightarrow> 'a list option" where
  "insertOne key x xs = (if key x \<in> set (map key xs) then None else Some (xs @ [x]))"

text \<open>
  \<^verbatim>\<open>findOneAndUpdate\<close> with \<^verbatim>\<open>returnDocument: "after"\<close>: the first match is changed and
  returned as changed; without a match nothing is changed and the result is \<^verbatim>\<open>null\<close>.
\<close>

definition findOneAndUpdate ::
  "('a \<Rightarrow> bool) \<Rightarrow> ('a \<Rightarrow> 'a) \<Rightarrow> 'a list \<Rightarrow> 'a option \<times> 'a list" where
  "findOneAndUpdate P f xs =
     (case findOne P xs of
        None \<Rightarrow> (None, xs)
      | Some x \<Rightarrow> (Some (f x), updateOne P f xs))"

section \<open>The loan lifecycle evaluator\<close>

text \<open>
  \<^verbatim>\<open>enrichLoansWithStatus\<close> (loans.controller.ts) reads the clock once and maps over the
  loans: a loan whose \<^verbatim>\<open>returnDate\<close> is truthy is returned as it is, any other loan gets
  the status \<^verbatim>\<open>OVERDUE\<close> when its due date is before the clock and \<^verbatim>\<open>BORROWED\<close>
  otherwise. A stored \<^verbatim>\<open>returnDate\<close> is \<^verbatim>\<open>null\<close> or a non-empty ISO string, so it is
  truthy exactly when it is not \<^verbatim>\<open>null\<close>.
\<close>

definition enrichLoan :: "time \<Rightarrow> 'a loan_scheme \<Rightarrow> 'a loan_scheme" where
  "enrichLoan now l =
     (if returnDate l \<noteq> None then l
      else if dueDate l < now then l\<lparr>status := OVERDUE\<rparr>
      else l\<lparr>status := BORROWED\<rparr>)"

definition enrichLoansWithStatus :: "time \<Rightarrow> 'a loan_scheme list \<Rightarrow> 'a loan_scheme list" where
  "enrichLoansWithStatus now ls = map (enrichLoan now) ls"

section \<open>The read path\<close>

text \<open>
  The aggregation that the listing handlers run: three \<^verbatim>\<open>$lookup\<close> stages join a loan
  with the books, copies and users whose \<^verbatim>\<open>_id\<close> it names, and the three \<^verbatim>\<open>$unwind\<close>
  stages produce one row for each combination (none when a lookup is empty). A row is the
  loan document extended with the fields \<^verbatim>\<open>book\<close>, \<^verbatim>\<open>copy\<close> and \<^verbatim>\<open>user\<close>.
\<close>

record loan_with_relations = loan +
  rel_book :: book
  rel_copy :: copy
  rel_user :: user

definition withRelations :: "db \<Rightarrow> loan list \<Rightarrow> loan_with_relations list" where
  "withRelations s ls =
     concat (map (\<lambda>l.
       concat (map (\<lambda>b.
         concat (map (\<lambda>c.
           map (\<lambda>u. loan.extend l (loan_with_relations.fields b c u))
             (filter (\<lambda>u. user_id u = userId l) (users s)))
           (filter (\<lambda>c. copy_id c = copyId l) (bookCopies s))))
         (filter (\<lambda>b. book_id b = bookId l) (books s)))) ls)"

text \<open>
  \<^verbatim>\<open>getLoansForUser\<close>: the requester must be authenticated and be the user in the path or
  an administrator or staff member; the rows of that user's loans are sent with the
  recomputed status. \<^verbatim>\<open>getAdminLoans\<close> does the same for every loan. Neither writes.
\<close>

definition getLoansForUser ::
  "time \<Rightarrow> jwt_payload option \<Rightarrow> string \<Rightarrow> db \<Rightarrow> loan_with_relations list response \<times> db" where
  "getLoansForUser now req uid s =
     (case req of
        None \<Rightarrow> (Failure 401 ''Not authenticated'', s)
      | Some u \<Rightarrow>
          let isOwnLoans = (jwt_userId u = uid);
              isAdminOrStaff = (jwt_role u = ADMIN \<or> jwt_role u = STAFF)
          in if \<not> isOwnLoans \<and> \<not> isAdminOrStaff
             then (Failure 403 ''You can only view your own loans'', s)
             else (Reply 200 (enrichLoansWithStatus now
                     (withRelations s (filter (\<lambda>l. userId l = uid) (loans s)))), s))"

definition getAdminLoans :: "time \<Rightarrow> db \<Rightarrow> loan_with_relations list response \<times> db" where
  "getAdminLoans now s = (Reply 200 (enrichLoansWithStatus now (withRelations s (loans s))), s)"

text \<open>
  \<^verbatim>\<open>getDashboardStats\<close> counts the active books and the users, and walks over all loans:
  an unreturned loan counts as overdue when its due date is before the clock and as active
  otherwise. The recent loans are the five latest by \<^verbatim>\<open>borrowDate\<close>, joined as above and
  sent with their stored status; among equal borrow dates the database fixes no order, the
  model keeps the natural one.
\<close>

record dashboard_stats =
  activeBooks :: nat
  totalUsers :: nat
  activeLoans :: nat
  overdueLoans :: nat
  recentLoans :: "loan_with_relations list"

fun countLoans :: "time \<Rightarrow> loan list \<Rightarrow> nat \<times> nat \<Rightarrow> nat \<times> nat" where
  "countLoans now [] (a, ov) = (a, ov)"
| "countLoans now (l # ls) (a, ov) =
     (if returnDate l = None
      then (if dueDate l < now then countLoans now ls (a, ov + 1)
            else countLoans now ls (a + 1, ov))
      else countLoans now ls (a, ov))"

definition getDashboardStats :: "time \<Rightarrow> db \<Rightarrow> dashboard_stats response \<times> db" where
  "getDashboardStats now s =
     (let (a, ov) = countLoans now (loans s) (0, 0)
      in (Reply 200 \<lparr>activeBooks = length (filter isActive (books s)),
                     totalUsers = length (users s),
                     activeLoans = a,
                     overdueLoans = ov,
                     recentLoans = withRelations s
                       (take 5 (sort_key (\<lambda>l. - borrowDate l) (loans s)))\<rparr>, s))"

section \<open>The loan operations\<close>

text \<open>
  What a handler takes from its environment is a parameter: the clock (\<open>now\<close>; a handler's
  later clock reads, which only stamp \<^verbatim>\<open>updatedAt\<close> and the like, see the same instant),
  the identifiers that \<^verbatim>\<open>generateId()\<close> returns, and \<^verbatim>\<open>toLocaleDateString\<close>. A date
  taken from a request body is \<open>None\<close> when \<^verbatim>\<open>new Date(...)\<close> of it is an invalid date;
  \<^verbatim>\<open>toISOString()\<close> of such a date throws. Whatever is thrown inside a handler is caught
  by its \<^verbatim>\<open>catch\<close> and answered with status 500; the writes made before stay.
\<close>

definition loanCreatedMessage :: "(time \<Rightarrow> string) \<Rightarrow> book \<Rightarrow> time \<Rightarrow> string" where
  "loanCreatedMessage toLocaleDateString b due =
     ''You have borrowed '' @ [CHR 0x22] @ book_title b @ [CHR 0x22] @ '' by '' @ book_author b
       @ ''. Please return it by '' @ toLocaleDateString due @ ''.''"

definition createLoan ::
  "(time \<Rightarrow> string) \<Rightarrow> time \<Rightarrow> string \<Rightarrow> string \<Rightarrow> string \<Rightarrow> string \<Rightarrow> time option \<Rightarrow> db
     \<Rightarrow> loan_with_relations option response \<times> db" where
  "createLoan toLocaleDateString now newLoanId newNotificationId uid bid due s =
     (case findOneAndUpdate
             (\<lambda>c. copy_bookId c = bid \<and> copy_status c = AVAILABLE)
             (\<lambda>c. c\<lparr>copy_status := BORROWED_COPY, copy_updatedAt := now\<rparr>)
             (bookCopies s) of
        (None, _) \<Rightarrow> (Failure 400 ''No copies available for this book'', s)
      | (Some availableCopy, copies') \<Rightarrow>
          let s1 = s\<lparr>bookCopies := copies'\<rparr>;
              bk = findOne (\<lambda>b. book_id b = bid) (books s1)
          in (case due of
                None \<Rightarrow> (Failure 500 ''Failed to create loan'', s1)
              | Some d \<Rightarrow>
                  let newLoan = \<lparr>loan_id = newLoanId, userId = uid, bookId = bid,
                                 copyId = copy_id availableCopy, borrowDate = now, dueDate = d,
                                 returnDate = None, status = BORROWED, reminderSent = False,
                                 reminderCount = None, lastReminderAt = None,
                                 createdAt = now, updatedAt = now\<rparr>
                  in (case insertOne loan_id newLoan (loans s1) of
                        None \<Rightarrow> (Failure 500 ''Failed to create loan'', s1)
                      | Some loans' \<Rightarrow>
                          let s2 = s1\<lparr>loans := loans'\<rparr>;
                              inserted =
                                (case bk of
                                   None \<Rightarrow> Some (notifications s2)
                                 | Some b \<Rightarrow>
                                     insertOne n_id
                                       \<lparr>n_id = newNotificationId, n_userId = uid,
                                        n_loanId = Some newLoanId, n_bookId = Some bid,
                                        n_type = LOAN_CREATED,
                                        title = ''Book Borrowed Successfully'',
                                        message = loanCreatedMessage toLocaleDateString b d,
                                        bookTitle = Some (book_title b),
                                        bookAuthor = Some (book_author b),
                                        n_dueDate = Some d, isRead = False,
                                        n_createdAt = now\<rparr>
                                       (notifications s2))
                          in (case inserted of
                                None \<Rightarrow> (Failure 500 ''Failed to create loan'', s2)
                              | Some ns' \<Rightarrow>
                                  let s3 = s2\<lparr>notifications := ns'\<rparr>
                                  in (Reply 201
                                        (case withRelations s3
                                                (filter (\<lambda>l. loan_id l = newLoanId) (loans s3)) of
                                           [] \<Rightarrow> None
                                         | e # _ \<Rightarrow> Some e), s3)))))"

definition returnLoan :: "time \<Rightarrow> string \<Rightarrow> db \<Rightarrow> unit response \<times> db" where
  "returnLoan now lid s =
     (case findOne (\<lambda>l. loan_id l = lid) (loans s) of
        None \<Rightarrow> (Failure 404 ''Loan not found'', s)
      | Some l \<Rightarrow>
          if returnDate l \<noteq> None then (Failure 400 ''Loan already returned'', s)
          else
            let s1 = s\<lparr>loans := updateOne (\<lambda>x. loan_id x = lid)
                          (\<lambda>x. x\<lparr>returnDate := Some now, status := RETURNED, updatedAt := now\<rparr>)
                          (loans s)\<rparr>;
                s2 = s1\<lparr>bookCopies := updateOne (\<lambda>c. copy_id c = copyId l)
                          (\<lambda>c. c\<lparr>copy_status := AVAILABLE, copy_updatedAt := now\<rparr>)
                          (bookCopies s1)\<rparr>
            in (Reply 204 (), s2))"

definition overdueReminderMessage :: "(time \<Rightarrow> string) \<Rightarrow> book \<Rightarrow> time \<Rightarrow> string" where
  "overdueReminderMessage toLocaleDateString b due =
     ''Please return '' @ [CHR 0x22] @ book_title b @ [CHR 0x22] @ '' by '' @ book_author b
       @ ''. This book was due on '' @ toLocaleDateString due
       @ ''. Please return it to the library as soon as possible.''"

definition sendOverdueReminder ::
  "(time \<Rightarrow> string) \<Rightarrow> time \<Rightarrow> string \<Rightarrow> string \<Rightarrow> db \<Rightarrow> unit response \<times> db" where
  "sendOverdueReminder toLocaleDateString now newNotificationId lid s =
     (case findOne (\<lambda>l. loan_id l = lid) (loans s) of
        None \<Rightarrow> (Failure 404 ''Loan not found'', s)
      | Some l \<Rightarrow>
          let isOverdue = (returnDate l = None \<and> dueDate l < now)
          in if \<not> isOverdue
             then (Failure 400 ''Only overdue loans can receive reminders'', s)
             else
               (case (findOne (\<lambda>u. user_id u = userId l) (users s),
                      findOne (\<lambda>b. book_id b = bookId l) (books s)) of
                  (Some u, Some b) \<Rightarrow>
                    (case insertOne n_id
                            \<lparr>n_id = newNotificationId, n_userId = userId l,
                             n_loanId = Some (loan_id l), n_bookId = Some (bookId l),
                             n_type = OVERDUE_REMINDER, title = ''Book Return Reminder'',
                             message = overdueReminderMessage toLocaleDateString b (dueDate l),
                             bookTitle = Some (book_title b),
                             bookAuthor = Some (book_author b),
                             n_dueDate = Some (dueDate l), isRead = False,
                             n_createdAt = now\<rparr>
                            (notifications s) of
                       None \<Rightarrow> (Failure 500 ''Failed to send reminder'', s)
                     | Some ns' \<Rightarrow>
                         let s1 = s\<lparr>notifications := ns'\<rparr>;
                             currentCount = (case reminderCount l of None \<Rightarrow> 0 | Some k \<Rightarrow> k);
                             s2 = s1\<lparr>loans := updateOne (\<lambda>x. loan_id x = lid)
                                       (\<lambda>x. x\<lparr>reminderSent := True,
                                              reminderCount := Some (currentCount + 1),
                                              lastReminderAt := Some now,
                                              updatedAt := now\<rparr>)
                                       (loans s1)\<rparr>
                         in (Reply 204 (), s2))
                | _ \<Rightarrow> (Failure 404 ''User or book not found'', s)))"

section \<open>The user deletion cascade\<close>

text \<open>
  \<^verbatim>\<open>deleteUser\<close> (the user controller). After the checks on the target and the requester
  it frees the copy of each of the user's loans whose stored status is \<^verbatim>\<open>BORROWED\<close> or
  \<^verbatim>\<open>OVERDUE\<close>, deletes the user's loans and notifications, deletes the password-reset
  notifications whose message matches the user's email as a case-insensitive regular
  expression, and deletes the user. The database's regular-expression engine is the
  parameter \<open>regexMatch\<close>: \<open>regexMatch p\<close> is \<open>None\<close> when the pattern \<open>p\<close> does not compile
  (the query then throws) and otherwise the matcher of \<open>p\<close>.
\<close>

definition freeCopies :: "time \<Rightarrow> loan list \<Rightarrow> copy list \<Rightarrow> copy list" where
  "freeCopies now userLoans cs =
     fold (\<lambda>l. updateOne (\<lambda>c. copy_id c = copyId l)
                  (\<lambda>c. c\<lparr>copy_status := AVAILABLE, copy_updatedAt := now\<rparr>)) userLoans cs"

definition deleteUser ::
  "(string \<Rightarrow> (string \<Rightarrow> bool) option) \<Rightarrow> time \<Rightarrow> jwt_payload option \<Rightarrow> string \<Rightarrow> db
     \<Rightarrow> unit response \<times> db" where
  "deleteUser regexMatch now req uid s =
     (let requesterId = map_option jwt_userId req;
          requesterRole = map_option jwt_role req
      in case findOne (\<lambda>u. user_id u = uid) (users s) of
           None \<Rightarrow> (Failure 404 ''User not found'', s)
         | Some targetUser \<Rightarrow>
             if Some (user_id targetUser) = requesterId
             then (Failure 400 ''You cannot delete your own account'', s)
             else if role targetUser = ADMIN \<and> requesterRole \<noteq> Some ADMIN
             then (Failure 403 ''Only administrators can remove another admin'', s)
             else if role targetUser = STAFF \<and> requesterRole \<noteq> Some ADMIN
             then (Failure 403 ''Only administrators can remove staff members'', s)
             else
               let userLoans = filter (\<lambda>l. userId l = uid
                                 \<and> (status l = BORROWED \<or> status l = OVERDUE)) (loans s);
                   s1 = s\<lparr>bookCopies := freeCopies now userLoans (bookCopies s)\<rparr>;
                   s2 = s1\<lparr>loans := deleteMany (\<lambda>l. userId l = uid) (loans s1)\<rparr>;
                   s3 = s2\<lparr>notifications :=
                             deleteMany (\<lambda>n. n_userId n = uid) (notifications s2)\<rparr>
               in (case regexMatch (email targetUser) of
                     None \<Rightarrow> (Failure 500 ''Failed to delete user'', s3)
                   | Some matches \<Rightarrow>
                       let s4 = s3\<lparr>notifications :=
                                   deleteMany (\<lambda>n. n_type n = PASSWORD_RESET_REQUEST
                                                  \<and> matches (message n)) (notifications s3)\<rparr>;
                           s5 = s4\<lparr>users := deleteOne (\<lambda>u. user_id u = uid) (users s4)\<rparr>
                       in (Reply 204 (), s5)))"

section \<open>The notification operations\<close>

text \<open>
  \<^verbatim>\<open>markAsRead\<close> and \<^verbatim>\<open>markAllAsRead\<close> (notifications.controller.ts) are the two handlers
  that update a stored notification, both with \<^verbatim>\<open>$set: { isRead: true }\<close>.
\<close>

definition markAsRead :: "jwt_payload option \<Rightarrow> string \<Rightarrow> db \<Rightarrow> unit response \<times> db" where
  "markAsRead req nid s =
     (case req of
        None \<Rightarrow> (Failure 401 ''Not authenticated'', s)
      | Some u \<Rightarrow>
          (Reply 204 (),
           s\<lparr>notifications := updateOne (\<lambda>n. n_id n = nid \<and> n_userId n = jwt_userId u)
                                (\<lambda>n. n\<lparr>isRead := True\<rparr>) (notifications s)\<rparr>))"

definition markAllAsRead :: "jwt_payload option \<Rightarrow> db \<Rightarrow> unit response \<times> db" where
  "markAllAsRead req s =
     (case req of
        None \<Rightarrow> (Failure 401 ''Not authenticated'', s)
      | Some u \<Rightarrow>
          (Reply 204 (),
           s\<lparr>notifications := updateMany (\<lambda>n. n_userId n = jwt_userId u \<and> isRead n = False)
                                (\<lambda>n. n\<lparr>isRead := True\<rparr>) (notifications s)\<rparr>))"

section \<open>Requests that do not overlap\<close>

text \<open>
  One request to \<^verbatim>\<open>createLoan\<close>, \<^verbatim>\<open>returnLoan\<close> or \<^verbatim>\<open>deleteUser\<close>, with what the
  handler takes from the request and from its environment. \<open>sequentialRun\<close> handles the
  requests strictly one after the other, each handler to its end before the next begins;
  whatever a handler answers, its writes stay. The handlers are \<^verbatim>\<open>async\<close>: the server may
  begin a request while another waits at an \<^verbatim>\<open>await\<close>. Such overlapping requests are not
  sequential runs; they are treated below, write by write.
\<close>

datatype request =
    CreateLoan time string string string string "time option"
  | ReturnLoan time string
  | DeleteUser time "jwt_payload option" string

fun handle ::
  "(time \<Rightarrow> string) \<Rightarrow> (string \<Rightarrow> (string \<Rightarrow> bool) option) \<Rightarrow> request \<Rightarrow> db \<Rightarrow> db" where
  "handle fmt rx (CreateLoan now newLoanId newNotificationId uid bid due) s =
     snd (createLoan fmt now newLoanId newNotificationId uid bid due s)"
| "handle fmt rx (ReturnLoan now lid) s = snd (returnLoan now lid s)"
| "handle fmt rx (DeleteUser now req uid) s = snd (deleteUser rx now req uid s)"

definition sequentialRun ::
  "(time \<Rightarrow> string) \<Rightarrow> (string \<Rightarrow> (string \<Rightarrow> bool) option) \<Rightarrow> request list \<Rightarrow> db \<Rightarrow> db" where
  "sequentialRun fmt rx rs s = fold (handle fmt rx) rs s"

text \<open>The loans that are not returned, and the copy ids they hold.\<close>

definition unreturned :: "loan list \<Rightarrow> loan list" where
  "unreturned ls = filter (\<lambda>l. returnDate l = None) ls"

definition oneLoanPerCopy :: "db \<Rightarrow> bool" where
  "oneLoanPerCopy s = distinct (map copyId (unreturned (loans s)))"

text \<open>
  The invariant that the loan operations keep: copy ids are unique (the database's
  \<^verbatim>\<open>_id\<close> index), a loan is unreturned exactly when its stored status is not
  \<^verbatim>\<open>RETURNED\<close>, no copy held by an unreturned loan is \<^verbatim>\<open>AVAILABLE\<close>, and no two
  unreturned loans hold the same copy.
\<close>

definition storeInv :: "db \<Rightarrow> bool" where
  "storeInv s \<longleftrightarrow>
     distinct (map copy_id (bookCopies s)) \<and>
     (\<forall>l\<in>set (loans s). (returnDate l = None) = (status l \<noteq> RETURNED)) \<and>
     (\<forall>l\<in>set (unreturned (loans s)). \<forall>c\<in>set (bookCopies s).
         copy_id c = copyId l \<longrightarrow> copy_status c \<noteq> AVAILABLE) \<and>
     oneLoanPerCopy s"

section \<open>The writes of the handlers, one by one\<close>

text \<open>
  Every call by which a modelled handler changes the store, as one atomic write of the
  database: \<^verbatim>\<open>findOneAndUpdate\<close> of \<^verbatim>\<open>createLoan\<close> (\<open>ReserveCopy\<close>), its
  \<^verbatim>\<open>insertOne\<close> of the new loan, always with \<^verbatim>\<open>returnDate: null\<close> and status
  \<^verbatim>\<open>BORROWED\<close> (\<open>InsertLoan\<close>), the \<^verbatim>\<open>insertOne\<close> of a notification by
  \<^verbatim>\<open>createLoan\<close> and \<^verbatim>\<open>sendOverdueReminder\<close> (\<open>InsertNotification\<close>), the two
  \<^verbatim>\<open>updateOne\<close> of \<^verbatim>\<open>returnLoan\<close> (\<open>MarkReturned\<close>, \<open>FreeCopy\<close>; \<^verbatim>\<open>deleteUser\<close>
  issues the second too), the \<^verbatim>\<open>updateOne\<close> of \<^verbatim>\<open>sendOverdueReminder\<close>
  (\<open>RecordReminder\<close>), the three \<^verbatim>\<open>deleteMany\<close> and the \<^verbatim>\<open>deleteOne\<close> of
  \<^verbatim>\<open>deleteUser\<close>, and the updates of \<^verbatim>\<open>markAsRead\<close> and \<^verbatim>\<open>markAllAsRead\<close>. An
  \<^verbatim>\<open>insertOne\<close> that throws leaves the store as it is.

  \<open>written s0 s\<close>: the store \<open>s\<close> comes from \<open>s0\<close> by some sequence of such writes, with
  any arguments and in any order. Whatever the handlers do, alone or overlapping, is such a
  sequence, since each of their writes is one awaited call.
\<close>

datatype db_write =
    ReserveCopy string time
  | InsertLoan string string string string time time
  | InsertNotification notification
  | MarkReturned string time
  | FreeCopy string time
  | RecordReminder string nat time
  | DeleteLoansOf string
  | DeleteNotificationsOf string
  | DeleteResetRequests "string \<Rightarrow> bool"
  | DeleteUserDoc string
  | MarkRead string string
  | MarkAllRead string

fun applyWrite :: "db_write \<Rightarrow> db \<Rightarrow> db" where
  "applyWrite (ReserveCopy bid now) s =
     s\<lparr>bookCopies := snd (findOneAndUpdate
          (\<lambda>c. copy_bookId c = bid \<and> copy_status c = AVAILABLE)
          (\<lambda>c. c\<lparr>copy_status := BORROWED_COPY, copy_updatedAt := now\<rparr>) (bookCopies s))\<rparr>"
| "applyWrite (InsertLoan newLoanId uid bid cid now due) s =
     (case insertOne loan_id
             \<lparr>loan_id = newLoanId, userId = uid, bookId = bid, copyId = cid,
              borrowDate = now, dueDate = due, returnDate = None, status = BORROWED,
              reminderSent = False, reminderCount = None, lastReminderAt = None,
              createdAt = now, updatedAt = now\<rparr> (loans s) of
        None \<Rightarrow> s
      | Some loans' \<Rightarrow> s\<lparr>loans := loans'\<rparr>)"
| "applyWrite (InsertNotification n) s =
     (case insertOne n_id n (notifications s) of
        None \<Rightarrow> s
      | Some ns' \<Rightarrow> s\<lparr>notifications := ns'\<rparr>)"
| "applyWrite (MarkReturned lid now) s =
     s\<lparr>loans := updateOne (\<lambda>x. loan_id x = lid)
                 (\<lambda>x. x\<lparr>returnDate := Some now, status := RETURNED, updatedAt := now\<rparr>)
                 (loans s)\<rparr>"
| "applyWrite (FreeCopy cid now) s =
     s\<lparr>bookCopies := updateOne (\<lambda>c. copy_id c = cid)
                      (\<lambda>c. c\<lparr>copy_status := AVAILABLE, copy_updatedAt := now\<rparr>)
                      (bookCopies s)\<rparr>"
| "applyWrite (RecordReminder lid k now) s =
     s\<lparr>loans := updateOne (\<lambda>x. loan_id x = lid)
                 (\<lambda>x. x\<lparr>reminderSent := True, reminderCount := Some k,
                        lastReminderAt := Some now, updatedAt := now\<rparr>)
                 (loans s)\<rparr>"
| "applyWrite (DeleteLoansOf uid) s = s\<lparr>loans := deleteMany (\<lambda>l. userId l = uid) (loans s)\<rparr>"
| "applyWrite (DeleteNotificationsOf uid) s =
     s\<lparr>notifications := deleteMany (\<lambda>n. n_userId n = uid) (notifications s)\<rparr>"
| "applyWrite (DeleteResetRequests matches) s =
     s\<lparr>notifications := deleteMany (\<lambda>n. n_type n = PASSWORD_RESET_REQUEST \<and> matches (message n))
                         (notifications s)\<rparr>"
| "applyWrite (DeleteUserDoc uid) s = s\<lparr>users := deleteOne (\<lambda>u. user_id u = uid) (users s)\<rparr>"
| "applyWrite (MarkRead nid uid) s =
     s\<lparr>notifications := updateOne (\<lambda>n. n_id n = nid \<and> n_userId n = uid)
                         (\<lambda>n. n\<lparr>isRead := True\<rparr>) (notifications s)\<rparr>"
| "applyWrite (MarkAllRead uid) s =
     s\<lparr>notifications := updateMany (\<lambda>n. n_userId n = uid \<and> isRead n = False)
                         (\<lambda>n. n\<lparr>isRead := True\<rparr>) (notifications s)\<rparr>"

inductive written :: "db \<Rightarrow> db \<Rightarrow> bool" for s0 where
  written_start: "written s0 s0"
| written_step: "written s0 s \<Longrightarrow> written s0 (applyWrite w s)"

text \<open>
  The three awaited calls of \<^verbatim>\<open>returnLoan\<close>, each on the store as it is when the call is
  made: the \<^verbatim>\<open>findOne\<close> with the two checks that follow it, the \<^verbatim>\<open>updateOne\<close> of the
  loan, and the \<^verbatim>\<open>updateOne\<close> of the copy, which takes the copy id from the loan document
  that the first call returned.
\<close>

definition returnLoan_find :: "string \<Rightarrow> db \<Rightarrow> unit response + loan" where
  "returnLoan_find lid s =
     (case findOne (\<lambda>l. loan_id l = lid) (loans s) of
        None \<Rightarrow> Inl (Failure 404 ''Loan not found'')
      | Some l \<Rightarrow>
          if returnDate l \<noteq> None then Inl (Failure 400 ''Loan already returned'') else Inr l)"

definition returnLoan_updateLoan :: "time \<Rightarrow> string \<Rightarrow> db \<Rightarrow> db" where
  "returnLoan_updateLoan now lid s = applyWrite (MarkReturned lid now) s"

definition returnLoan_updateCopy :: "time \<Rightarrow> loan \<Rightarrow> db \<Rightarrow> db" where
  "returnLoan_updateCopy now l s = applyWrite (FreeCopy (copyId l) now) s"

text \<open>A loan with a return date is stored as \<^verbatim>\<open>RETURNED\<close>.\<close>

definition returnedAsStored :: "'a loan_scheme list \<Rightarrow> bool" where
  "returnedAsStored ls \<longleftrightarrow> (\<forall>l\<in>set ls. returnDate l \<noteq> None \<longrightarrow> status l = RETURNED)"

section \<open>Example stores\<close>

text \<open>
  A small library: the seeded administrator and one reader, one title with two copies. In
  \<open>storeLent\<close> the reader has borrowed the first copy at time 1000, due at 2000; in
  \<open>storeReturned\<close> that loan was returned at 1500; in \<open>storeAllOut\<close> no copy of the title
  is available; in \<open>storeDeleted\<close> the administrator has removed the reader from
  \<open>storeLent\<close> at 3000. The example environment formats every date alike, and its
  regular expressions match exactly the text equal to the pattern.

  The four \<open>race\<close> stores follow two \<^verbatim>\<open>returnLoan\<close> requests for the reader's loan that
  both read the loan in \<open>storeLent\<close>, before either has written: the first request writes
  (\<open>raceFirstReturn\<close>), the administrator borrows the title (\<open>raceSecondLoan\<close>), the
  second request writes (\<open>raceSecondReturn\<close>), and the reader borrows the title again
  (\<open>raceThirdLoan\<close>).
\<close>

definition exampleLocaleDate :: "time \<Rightarrow> string" where
  "exampleLocaleDate t = ''1/1/1970''"

definition exampleRegex :: "string \<Rightarrow> (string \<Rightarrow> bool) option" where
  "exampleRegex p = Some (\<lambda>text. text = p)"

definition admin :: user where
  "admin = \<lparr>user_id = ''1'', name = ''Library Admin'', email = ''admin@library.edu'', role = ADMIN\<rparr>"

definition alice :: user where
  "alice = \<lparr>user_id = ''u1'', name = ''Alice'', email = ''alice@library.edu'', role = USER\<rparr>"

definition adminToken :: jwt_payload where
  "adminToken = \<lparr>jwt_userId = ''1'', jwt_email = ''admin@library.edu'', jwt_role = ADMIN\<rparr>"

definition aliceToken :: jwt_payload where
  "aliceToken = \<lparr>jwt_userId = ''u1'', jwt_email = ''alice@library.edu'', jwt_role = USER\<rparr>"

definition dune :: book where
  "dune = \<lparr>book_id = ''b1'', book_title = ''Dune'', book_author = ''Frank Herbert'',
           isActive = True\<rparr>"

definition copyA :: copy where
  "copyA = \<lparr>copy_id = ''c1'', copy_bookId = ''b1'', copyCode = ''DUNE-1'',
            copy_status = AVAILABLE, copy_createdAt = 0, copy_updatedAt = 0\<rparr>"

definition copyB :: copy where
  "copyB = \<lparr>copy_id = ''c2'', copy_bookId = ''b1'', copyCode = ''DUNE-2'',
            copy_status = AVAILABLE, copy_createdAt = 0, copy_updatedAt = 0\<rparr>"

definition store0 :: db where
  "store0 = \<lparr>users = [admin, alice], books = [dune], bookCopies = [copyA, copyB],
             loans = [], notifications = []\<rparr>"

definition loan1 :: loan where
  "loan1 = \<lparr>loan_id = ''l1'', userId = ''u1'', bookId = ''b1'', copyId = ''c1'',
            borrowDate = 1000, dueDate = 2000, returnDate = None, status = BORROWED,
            reminderSent = False, reminderCount = None, lastReminderAt = None,
            createdAt = 1000, updatedAt = 1000\<rparr>"

definition notif1 :: notification where
  "notif1 = \<lparr>n_id = ''n1'', n_userId = ''u1'', n_loanId = Some ''l1'', n_bookId = Some ''b1'',
             n_type = LOAN_CREATED, title = ''Book Borrowed Successfully'',
             message = loanCreatedMessage exampleLocaleDate dune 2000,
             bookTitle = Some ''Dune'', bookAuthor = Some ''Frank Herbert'',
             n_dueDate = Some 2000, isRead = False, n_createdAt = 1000\<rparr>"

definition storeLent :: db where
  "storeLent = \<lparr>users = [admin, alice], books = [dune],
                bookCopies = [copyA\<lparr>copy_status := BORROWED_COPY, copy_updatedAt := 1000\<rparr>, copyB],
                loans = [loan1], notifications = [notif1]\<rparr>"

definition storeReturned :: db where
  "storeReturned = \<lparr>users = [admin, alice], books = [dune],
                bookCopies = [copyA\<lparr>copy_status := AVAILABLE, copy_updatedAt := 1500\<rparr>, copyB],
                loans = [loan1\<lparr>returnDate := Some 1500, status := RETURNED, updatedAt := 1500\<rparr>],
                notifications = [notif1]\<rparr>"

definition storeAllOut :: db where
  "storeAllOut = \<lparr>users = [admin, alice], books = [dune],
                  bookCopies = [copyA\<lparr>copy_status := BORROWED_COPY\<rparr>,
                                copyB\<lparr>copy_status := MAINTENANCE\<rparr>],
                  loans = [], notifications = []\<rparr>"

definition storeDeleted :: db where
  "storeDeleted = \<lparr>users = [admin], books = [dune],
                   bookCopies = [copyA\<lparr>copy_status := AVAILABLE, copy_updatedAt := 3000\<rparr>, copyB],
                   loans = [], notifications = []\<rparr>"

definition exampleRun :: "request list" where
  "exampleRun =
     [CreateLoan 1000 ''l1'' ''n1'' ''u1'' ''b1'' (Some 2000),
      CreateLoan 1100 ''l2'' ''n2'' ''1'' ''b1'' (Some 2100),
      CreateLoan 1200 ''l3'' ''n3'' ''u1'' ''b1'' (Some 2200),
      ReturnLoan 1500 ''l1'',
      CreateLoan 1600 ''l4'' ''n4'' ''u1'' ''b1'' (Some 2600),
      ReturnLoan 1700 ''l1'',
      DeleteUser 3000 (Some adminToken) ''u1'']"

definition raceFirstReturn :: db where
  "raceFirstReturn = returnLoan_updateCopy 1500 loan1 (returnLoan_updateLoan 1500 ''l1'' storeLent)"

definition raceSecondLoan :: db where
  "raceSecondLoan =
     snd (createLoan exampleLocaleDate 1600 ''l2'' ''n2'' ''1'' ''b1'' (Some 2600) raceFirstReturn)"

definition raceSecondReturn :: db where
  "raceSecondReturn =
     returnLoan_updateCopy 1700 loan1 (returnLoan_updateLoan 1700 ''l1'' raceSecondLoan)"

definition raceThirdLoan :: db where
  "raceThirdLoan =
     snd (createLoan exampleLocaleDate 1800 ''l3'' ''n3'' ''u1'' ''b1'' (Some 2800) raceSecondReturn)"

lemmas sample_defs = exampleLocaleDate_def exampleRegex_def admin_def alice_def adminToken_def
  aliceToken_def dune_def copyA_def copyB_def store0_def loan1_def notif1_def storeLent_def
  storeReturned_def

section \<open>Facts about the collection operations\<close>

lemma findOne_None_iff: "findOne P xs = None \<longleftrightarrow> (\<forall>x\<in>set xs. \<not> P x)"
  by (auto simp: findOne_def find_None_iff)

lemma findOne_SomeD: "findOne P xs = Some x \<Longrightarrow> P x \<and> x \<in> set xs"
  unfolding findOne_def by (induction xs) (auto split: if_splits)

lemma updateOne_none: "findOne P xs = None \<Longrightarrow> updateOne P f xs = xs"
  unfolding findOne_def by (induction xs) (auto split: if_splits)

lemma updateOne_split:
  "findOne P xs = Some x \<Longrightarrow>
     \<exists>ys zs. xs = ys @ x # zs \<and> (\<forall>y\<in>set ys. \<not> P y) \<and> updateOne P f xs = ys @ f x # zs"
unfolding findOne_def
proof (induction xs)
  case Nil
  then show ?case by simp
next
  case (Cons a xs)
  show ?case
  proof (cases "P a")
    case True
    with Cons.prems have "a = x" by simp
    with True show ?thesis by (intro exI [of _ "[]"] exI [of _ xs]) simp
  next
    case False
    with Cons.prems have "find P xs = Some x" by simp
    from Cons.IH [OF this] obtain ys zs where
      "xs = ys @ x # zs" "\<forall>y\<in>set ys. \<not> P y" "updateOne P f xs = ys @ f x # zs" by blast
    with False show ?thesis by (intro exI [of _ "a # ys"] exI [of _ zs]) simp
  qed
qed

lemma findOne_updateOne_key:
  assumes "\<And>x. key (f x) = key x"
  shows "findOne (\<lambda>x. key x = k) (updateOne (\<lambda>x. key x = k') f xs) =
           (if k = k' then map_option f (findOne (\<lambda>x. key x = k) xs)
            else findOne (\<lambda>x. key x = k) xs)"
  unfolding findOne_def using assms by (induction xs) auto

lemma map_updateOne_keep:
  assumes "\<And>x. g (f x) = g x"
  shows "map g (updateOne P f xs) = map g xs"
  using assms by (induction xs) auto

lemma list_all2_updateOne:
  assumes "\<And>x. R x x" "\<And>x. R x (f x)"
  shows "list_all2 R xs (updateOne P f xs)"
  using assms by (induction xs) (auto simp: list_all2_refl)

lemma list_all2_updateMany:
  assumes "\<And>x. R x x" "\<And>x. R x (f x)"
  shows "list_all2 R xs (updateMany P f xs)"
  using assms by (induction xs) (auto simp: updateMany_def)

lemma set_updateOne:
  "x \<in> set (updateOne P f xs) \<Longrightarrow> x \<in> set xs \<or> (\<exists>y\<in>set xs. P y \<and> x = f y)"
  by (induction xs) (auto split: if_splits)

subsection \<open>Freeing the copies of a list of loans\<close>

lemma freeCopies_Cons:
  "freeCopies now (l # ls) cs =
     freeCopies now ls (updateOne (\<lambda>c. copy_id c = copyId l)
        (\<lambda>c. c\<lparr>copy_status := AVAILABLE, copy_updatedAt := now\<rparr>) cs)"
  by (simp add: freeCopies_def)

lemma freeCopies_Nil: "freeCopies now [] cs = cs"
  by (simp add: freeCopies_def)

lemma findOne_freeCopies:
  "findOne (\<lambda>c. copy_id c = k) (freeCopies now ls cs) =
     (if k \<in> copyId ` set ls
      then map_option (\<lambda>c. c\<lparr>copy_status := AVAILABLE, copy_updatedAt := now\<rparr>)
             (findOne (\<lambda>c. copy_id c = k) cs)
      else findOne (\<lambda>c. copy_id c = k) cs)"
proof (induction ls arbitrary: cs)
  case Nil
  show ?case by (simp add: freeCopies_Nil)
next
  case (Cons l ls)
  show ?case
    by (simp add: freeCopies_Cons Cons.IH findOne_updateOne_key [where key = copy_id]
          option.map_comp comp_def)
qed

lemma status_cases: "status l \<noteq> RETURNED \<Longrightarrow> status l = BORROWED \<or> status l = OVERDUE"
  by (cases "status l") auto

lemma set_freeCopies:
  "c \<in> set (freeCopies now ls cs) \<Longrightarrow> c \<in> set cs \<or> copy_id c \<in> copyId ` set ls"
proof (induction ls arbitrary: cs)
  case Nil
  then show ?case by (simp add: freeCopies_Nil)
next
  case (Cons l ls)
  from Cons.prems Cons.IH
  have "c \<in> set (updateOne (\<lambda>c. copy_id c = copyId l)
           (\<lambda>c. c\<lparr>copy_status := AVAILABLE, copy_updatedAt := now\<rparr>) cs)
        \<or> copy_id c \<in> copyId ` set ls"
    by (simp add: freeCopies_Cons)
  then show ?case
    by (auto dest!: set_updateOne)
qed

lemma map_copy_id_freeCopies: "map copy_id (freeCopies now ls cs) = map copy_id cs"
  by (induction ls arbitrary: cs) (simp_all add: freeCopies_Nil freeCopies_Cons map_updateOne_keep)

section \<open>The handlers write only through the writes above\<close>

lemma returnLoan_steps:
  "returnLoan now lid s =
     (case returnLoan_find lid s of
        Inl r \<Rightarrow> (r, s)
      | Inr l \<Rightarrow> (Reply 204 (),
                  returnLoan_updateCopy now l (returnLoan_updateLoan now lid s)))"
  by (simp add: returnLoan_def returnLoan_find_def returnLoan_updateLoan_def
        returnLoan_updateCopy_def Let_def split: option.splits)

lemma written_trans: "written s1 s2 \<Longrightarrow> written s0 s1 \<Longrightarrow> written s0 s2"
  by (induction rule: written.induct) (auto intro: written.intros)

lemma written_fold: "written s (fold applyWrite ws s)"
proof (induction ws rule: rev_induct)
  case Nil
  show ?case by (simp add: written_start)
next
  case (snoc w ws)
  then show ?case by (simp add: written_step)
qed

lemma written_1: "written s (applyWrite w s)"
  by (intro written.intros)

lemma written_2: "written s (applyWrite w2 (applyWrite w1 s))"
  by (intro written.intros)

lemma written_3: "written s (applyWrite w3 (applyWrite w2 (applyWrite w1 s)))"
  by (intro written.intros)

lemma returnLoan_written: "written s (snd (returnLoan now lid s))"
proof (cases "returnLoan_find lid s")
  case (Inl r)
  then show ?thesis by (simp add: returnLoan_steps written_start)
next
  case (Inr l)
  then have e: "snd (returnLoan now lid s)
                 = applyWrite (FreeCopy (copyId l) now) (applyWrite (MarkReturned lid now) s)"
    by (simp add: returnLoan_steps returnLoan_updateLoan_def returnLoan_updateCopy_def
          del: applyWrite.simps)
  show ?thesis unfolding e by (rule written_2)
qed

lemma createLoan_written:
  "written s (snd (createLoan fmt now newLoanId newNotificationId uid bid due s))"
proof -
  let ?P = "\<lambda>c. copy_bookId c = bid \<and> copy_status c = AVAILABLE"
  let ?f = "\<lambda>c. c\<lparr>copy_status := BORROWED_COPY, copy_updatedAt := now\<rparr>"
  show ?thesis
  proof (cases "findOne ?P (bookCopies s)")
    case None
    then show ?thesis by (simp add: createLoan_def findOneAndUpdate_def written_start)
  next
    case (Some c)
    define s1 where "s1 = applyWrite (ReserveCopy bid now) s"
    have s1: "s1 = s\<lparr>bookCopies := updateOne ?P ?f (bookCopies s)\<rparr>"
      using Some by (simp add: s1_def findOneAndUpdate_def)
    have w1: "written s s1" unfolding s1_def by (rule written_1)
    show ?thesis
    proof (cases due)
      case None
      with Some w1 show ?thesis by (simp add: createLoan_def findOneAndUpdate_def s1 Let_def)
    next
      case due: (Some d)
      define s2 where "s2 = applyWrite (InsertLoan newLoanId uid bid (copy_id c) now d) s1"
      have w2: "written s s2" unfolding s2_def s1_def by (rule written_2)
      show ?thesis
      proof (cases "findOne (\<lambda>b. book_id b = bid) (books s)")
        case None
        have "snd (createLoan fmt now newLoanId newNotificationId uid bid due s) = s2"
          using Some due None
          by (simp add: createLoan_def findOneAndUpdate_def s2_def s1 Let_def
                split: option.splits)
        with w2 show ?thesis by simp
      next
        case bk: (Some b)
        define n where "n = \<lparr>n_id = newNotificationId, n_userId = uid,
              n_loanId = Some newLoanId, n_bookId = Some bid, n_type = LOAN_CREATED,
              title = ''Book Borrowed Successfully'',
              message = loanCreatedMessage fmt b d,
              bookTitle = Some (book_title b), bookAuthor = Some (book_author b),
              n_dueDate = Some d, isRead = False, n_createdAt = now\<rparr>"
        have "snd (createLoan fmt now newLoanId newNotificationId uid bid due s) = s2
            \<or> snd (createLoan fmt now newLoanId newNotificationId uid bid due s)
                 = applyWrite (InsertNotification n) s2"
          using Some due bk
          by (simp add: createLoan_def findOneAndUpdate_def s2_def s1 n_def Let_def
                split: option.splits)
        then show ?thesis
        proof
          assume e: "snd (createLoan fmt now newLoanId newNotificationId uid bid due s) = s2"
          show ?thesis unfolding e by (rule w2)
        next
          assume e: "snd (createLoan fmt now newLoanId newNotificationId uid bid due s)
                       = applyWrite (InsertNotification n) s2"
          show ?thesis unfolding e by (rule written_step [OF w2])
        qed
      qed
    qed
  qed
qed

lemma sendOverdueReminder_written:
  "written s (snd (sendOverdueReminder fmt now newNotificationId lid s))"
proof -
  let ?r = "sendOverdueReminder fmt now newNotificationId lid s"
  have same: "written s (snd ?r)" if "snd ?r = s"
    unfolding that by (rule written_start)
  show ?thesis
  proof (cases "findOne (\<lambda>l. loan_id l = lid) (loans s)")
    case None
    then show ?thesis by (intro same) (simp add: sendOverdueReminder_def)
  next
    case l: (Some l)
    show ?thesis
    proof (cases "returnDate l = None \<and> dueDate l < now")
      case False
      with l show ?thesis by (intro same) (auto simp: sendOverdueReminder_def)
    next
      case True
      show ?thesis
      proof (cases "findOne (\<lambda>u. user_id u = userId l) (users s)")
        case None
        with l True show ?thesis by (intro same) (simp add: sendOverdueReminder_def)
      next
        case u: (Some u)
        show ?thesis
        proof (cases "findOne (\<lambda>b. book_id b = bookId l) (books s)")
          case None
          with l True u show ?thesis by (intro same) (simp add: sendOverdueReminder_def)
        next
          case b: (Some b)
          define n where "n = \<lparr>n_id = newNotificationId, n_userId = userId l,
                n_loanId = Some (loan_id l), n_bookId = Some (bookId l),
                n_type = OVERDUE_REMINDER, title = ''Book Return Reminder'',
                message = overdueReminderMessage fmt b (dueDate l),
                bookTitle = Some (book_title b), bookAuthor = Some (book_author b),
                n_dueDate = Some (dueDate l), isRead = False, n_createdAt = now\<rparr>"
          define k where "k = (case reminderCount l of None \<Rightarrow> 0 | Some k \<Rightarrow> k) + 1"
          show ?thesis
          proof (cases "insertOne n_id n (notifications s)")
            case None
            with l True u b show ?thesis
              by (intro same) (simp add: sendOverdueReminder_def n_def)
          next
            case (Some ns)
            with l True u b
            have e: "snd ?r = applyWrite (RecordReminder lid k now)
                                (applyWrite (InsertNotification n) s)"
              by (simp add: sendOverdueReminder_def n_def k_def Let_def)
            show ?thesis unfolding e by (rule written_2)
          qed
        qed
      qed
    qed
  qed
qed

lemma freeCopies_written:
  "s\<lparr>bookCopies := freeCopies now ls (bookCopies s)\<rparr>
     = fold applyWrite (map (\<lambda>l. FreeCopy (copyId l) now) ls) s"
proof (induction ls arbitrary: s)
  case Nil
  show ?case by (simp add: freeCopies_def)
next
  case (Cons l ls)
  let ?s = "applyWrite (FreeCopy (copyId l) now) s"
  have "fold applyWrite (map (\<lambda>l. FreeCopy (copyId l) now) (l # ls)) s
          = fold applyWrite (map (\<lambda>l. FreeCopy (copyId l) now) ls) ?s"
    by (simp del: applyWrite.simps)
  also have "\<dots> = ?s\<lparr>bookCopies := freeCopies now ls (bookCopies ?s)\<rparr>"
    by (rule Cons.IH [symmetric])
  also have "\<dots> = s\<lparr>bookCopies := freeCopies now (l # ls) (bookCopies s)\<rparr>"
    by (simp add: freeCopies_def)
  finally show ?case by simp
qed

lemma deleteUser_written: "written s (snd (deleteUser rx now req uid s))"
proof -
  define ul where
    "ul = filter (\<lambda>l. userId l = uid \<and> (status l = BORROWED \<or> status l = OVERDUE)) (loans s)"
  define s1 where "s1 = fold applyWrite (map (\<lambda>l. FreeCopy (copyId l) now) ul) s"
  define s3 where "s3 = applyWrite (DeleteNotificationsOf uid) (applyWrite (DeleteLoansOf uid) s1)"
  have w1: "written s s1" unfolding s1_def by (rule written_fold)
  have w3: "written s s3" unfolding s3_def by (intro written_step w1)
  have s1: "s1 = s\<lparr>bookCopies := freeCopies now ul (bookCopies s)\<rparr>"
    by (simp add: s1_def freeCopies_written)
  have "snd (deleteUser rx now req uid s) = s \<or> snd (deleteUser rx now req uid s) = s3 \<or>
        (\<exists>m. snd (deleteUser rx now req uid s)
               = applyWrite (DeleteUserDoc uid) (applyWrite (DeleteResetRequests m) s3))"
    by (auto simp: deleteUser_def Let_def s3_def s1 ul_def split: option.splits)
  then show ?thesis
  proof (elim disjE exE)
    assume e: "snd (deleteUser rx now req uid s) = s"
    show ?thesis unfolding e by (rule written_start)
  next
    assume e: "snd (deleteUser rx now req uid s) = s3"
    show ?thesis unfolding e by (rule w3)
  next
    fix m
    assume e: "snd (deleteUser rx now req uid s)
                 = applyWrite (DeleteUserDoc uid) (applyWrite (DeleteResetRequests m) s3)"
    show ?thesis unfolding e by (intro written_step w3)
  qed
qed

lemma markAsRead_written: "written s (snd (markAsRead req nid s))"
proof (cases req)
  case None
  then show ?thesis by (simp add: markAsRead_def written_start)
next
  case (Some u)
  then have e: "snd (markAsRead req nid s) = applyWrite (MarkRead nid (jwt_userId u)) s"
    by (simp add: markAsRead_def)
  show ?thesis unfolding e by (rule written_1)
qed

lemma markAllAsRead_written: "written s (snd (markAllAsRead req s))"
proof (cases req)
  case None
  then show ?thesis by (simp add: markAllAsRead_def written_start)
next
  case (Some u)
  then have e: "snd (markAllAsRead req s) = applyWrite (MarkAllRead (jwt_userId u)) s"
    by (simp add: markAllAsRead_def)
  show ?thesis unfolding e by (rule written_1)
qed

lemma returnedAsStored_updateOne:
  assumes "returnedAsStored ls" "\<And>x. returnDate (f x) \<noteq> None \<longrightarrow> status (f x) = RETURNED"
  shows "returnedAsStored (updateOne P f ls)"
  using assms unfolding returnedAsStored_def by (auto dest!: set_updateOne)

lemma returnedAsStored_updateOne_keep:
  assumes "returnedAsStored ls" "\<And>x. returnDate (f x) = returnDate x" "\<And>x. status (f x) = status x"
  shows "returnedAsStored (updateOne P f ls)"
  using assms unfolding returnedAsStored_def by (auto dest!: set_updateOne)

lemma applyWrite_returnedAsStored:
  "returnedAsStored (loans s) \<Longrightarrow> returnedAsStored (loans (applyWrite w s))"
proof (cases w)
  case (InsertLoan x1 x2 x3 x4 x5 x6)
  then show "returnedAsStored (loans s) \<Longrightarrow> ?thesis"
    by (auto simp: returnedAsStored_def insertOne_def)
next
  case (MarkReturned lid now)
  then show "returnedAsStored (loans s) \<Longrightarrow> ?thesis"
    by (simp add: returnedAsStored_updateOne)
next
  case (RecordReminder lid k now)
  then show "returnedAsStored (loans s) \<Longrightarrow> ?thesis"
    by (simp add: returnedAsStored_updateOne_keep)
next
  case (DeleteLoansOf uid)
  then show "returnedAsStored (loans s) \<Longrightarrow> ?thesis"
    by (simp add: returnedAsStored_def deleteMany_def)
qed (auto split: option.splits)

lemma written_returnedAsStored:
  "written s0 s \<Longrightarrow> returnedAsStored (loans s0) \<Longrightarrow> returnedAsStored (loans s)"
  by (induction rule: written.induct) (auto intro: applyWrite_returnedAsStored)

lemma withRelations_returnedAsStored:
  "returnedAsStored ls \<Longrightarrow> returnedAsStored (withRelations s ls)"
  unfolding returnedAsStored_def withRelations_def
  by (auto simp: loan.defs)

lemma stored_loans_returnedAsStored:
  assumes "written s0 s" and "loans s0 = []"
  shows "\<forall>l\<in>set (loans s). returnDate l \<noteq> None \<longrightarrow> status l = RETURNED"
    and "\<forall>r\<in>set (withRelations s (loans s)). returnDate r \<noteq> None \<longrightarrow> status r = RETURNED"
proof -
  from assms(2) have "returnedAsStored (loans s0)" by (simp add: returnedAsStored_def)
  with assms(1) have *: "returnedAsStored (loans s)" by (rule written_returnedAsStored)
  then show "\<forall>l\<in>set (loans s). returnDate l \<noteq> None \<longrightarrow> status l = RETURNED"
    by (simp add: returnedAsStored_def)
  from * have "returnedAsStored (withRelations s (loans s))"
    by (rule withRelations_returnedAsStored)
  then show "\<forall>r\<in>set (withRelations s (loans s)). returnDate r \<noteq> None \<longrightarrow> status r = RETURNED"
    by (simp add: returnedAsStored_def)
qed

section \<open>The invariant of the loan operations, for requests that do not overlap\<close>

lemma storeInv_notifications [simp]: "storeInv (s\<lparr>notifications := ns\<rparr>) = storeInv s"
  by (simp add: storeInv_def oneLoanPerCopy_def)

lemma storeInv_users [simp]: "storeInv (s\<lparr>users := us\<rparr>) = storeInv s"
  by (simp add: storeInv_def oneLoanPerCopy_def)

lemma storeInv_reserve:
  assumes inv: "storeInv s"
  shows "storeInv (s\<lparr>bookCopies := updateOne P
            (\<lambda>c. c\<lparr>copy_status := BORROWED_COPY, copy_updatedAt := now\<rparr>) (bookCopies s)\<rparr>)"
  using inv unfolding storeInv_def oneLoanPerCopy_def
  by (auto simp: map_updateOne_keep dest!: set_updateOne)

lemma storeInv_insert_loan:
  assumes inv: "storeInv s"
      and found: "findOne P (bookCopies s) = Some c"
      and avail: "copy_status c = AVAILABLE"
      and nl: "returnDate nl = None" "status nl = BORROWED" "copyId nl = copy_id c"
  shows "storeInv (s\<lparr>bookCopies := updateOne P
            (\<lambda>c. c\<lparr>copy_status := BORROWED_COPY, copy_updatedAt := now\<rparr>) (bookCopies s),
            loans := loans s @ [nl]\<rparr>)"
proof -
  let ?f = "\<lambda>c. c\<lparr>copy_status := BORROWED_COPY, copy_updatedAt := now\<rparr>"
  from updateOne_split [OF found, of ?f] obtain ys zs where
    cs: "bookCopies s = ys @ c # zs" and upd: "updateOne P ?f (bookCopies s) = ys @ ?f c # zs"
    by blast
  from inv have d: "distinct (map copy_id (bookCopies s))"
    and i2: "\<forall>l\<in>set (loans s). (returnDate l = None) = (status l \<noteq> RETURNED)"
    and i3: "\<forall>l\<in>set (unreturned (loans s)). \<forall>c\<in>set (bookCopies s).
               copy_id c = copyId l \<longrightarrow> copy_status c \<noteq> AVAILABLE"
    and i4: "distinct (map copyId (unreturned (loans s)))"
    by (simp_all add: storeInv_def oneLoanPerCopy_def)
  have c_in: "c \<in> set (bookCopies s)" using cs by simp
  have fresh: "copy_id c \<notin> copyId ` set (unreturned (loans s))"
    using i3 c_in avail by auto
  have a: "distinct (map copy_id (updateOne P ?f (bookCopies s)))"
    using d by (simp add: map_updateOne_keep)
  have b: "\<forall>l\<in>set (loans s @ [nl]). (returnDate l = None) = (status l \<noteq> RETURNED)"
    using i2 nl by auto
  have un: "unreturned (loans s @ [nl]) = unreturned (loans s) @ [nl]"
    using nl by (simp add: unreturned_def)
  have e: "distinct (map copyId (unreturned (loans s @ [nl])))"
    using i4 fresh nl by (simp add: un)
  have g: "copy_status c' \<noteq> AVAILABLE"
    if "l \<in> set (unreturned (loans s @ [nl]))" "c' \<in> set (updateOne P ?f (bookCopies s))"
       "copy_id c' = copyId l" for l c'
  proof (cases "c' = ?f c")
    case True
    then show ?thesis by simp
  next
    case False
    with that(2) upd have c'_in: "c' \<in> set ys \<union> set zs" by auto
    then have c'_old: "c' \<in> set (bookCopies s)" using cs by auto
    show ?thesis
    proof (cases "l = nl")
      case True
      with that(3) nl have "copy_id c = copy_id c'" by simp
      moreover from c'_in have "copy_id c' \<in> copy_id ` (set ys \<union> set zs)" by blast
      moreover from d cs have "copy_id c \<notin> copy_id ` (set ys \<union> set zs)" by auto
      ultimately show ?thesis by simp
    next
      case False
      with that(1) un have "l \<in> set (unreturned (loans s))" by auto
      with i3 c'_old that(3) show ?thesis by blast
    qed
  qed
  from a b e g show ?thesis
    unfolding storeInv_def oneLoanPerCopy_def by (simp; blast)
qed

lemma storeInv_createLoan:
  assumes "storeInv s"
  shows "storeInv (snd (createLoan fmt now newLoanId newNotificationId uid bid due s))"
proof -
  let ?P = "\<lambda>c. copy_bookId c = bid \<and> copy_status c = AVAILABLE"
  show ?thesis
  proof (cases "findOne ?P (bookCopies s)")
    case None
    with assms show ?thesis by (simp add: createLoan_def findOneAndUpdate_def)
  next
    case (Some c)
    then have av: "copy_status c = AVAILABLE" by (auto dest: findOne_SomeD)
    note r = storeInv_reserve [OF assms, of ?P now]
    note i = storeInv_insert_loan [OF assms Some av, of _ now]
    show ?thesis
      using Some r
      by (auto simp: createLoan_def findOneAndUpdate_def Let_def insertOne_def
            intro!: i split: option.splits)
  qed
qed

lemma storeInv_returnLoan:
  assumes inv: "storeInv s"
  shows "storeInv (snd (returnLoan now lid s))"
proof (cases "findOne (\<lambda>l. loan_id l = lid) (loans s)")
  case None
  with inv show ?thesis by (simp add: returnLoan_def)
next
  case (Some l)
  show ?thesis
  proof (cases "returnDate l = None")
    case False
    with Some inv show ?thesis by (simp add: returnLoan_def)
  next
    case True
    let ?g = "\<lambda>x. x\<lparr>returnDate := Some now, status := RETURNED, updatedAt := now\<rparr>"
    let ?f = "\<lambda>c. c\<lparr>copy_status := AVAILABLE, copy_updatedAt := now\<rparr>"
    let ?cs' = "updateOne (\<lambda>c. copy_id c = copyId l) ?f (bookCopies s)"
    from updateOne_split [OF Some, of ?g] obtain ys zs where
      ls: "loans s = ys @ l # zs"
      and upd: "updateOne (\<lambda>l. loan_id l = lid) ?g (loans s) = ys @ ?g l # zs"
      by blast
    from inv have d: "distinct (map copy_id (bookCopies s))"
      and i2: "\<forall>l\<in>set (loans s). (returnDate l = None) = (status l \<noteq> RETURNED)"
      and i3: "\<forall>l\<in>set (unreturned (loans s)). \<forall>c\<in>set (bookCopies s).
                 copy_id c = copyId l \<longrightarrow> copy_status c \<noteq> AVAILABLE"
      and i4: "distinct (map copyId (unreturned (loans s)))"
      by (simp_all add: storeInv_def oneLoanPerCopy_def)
    have un: "unreturned (loans s) = unreturned ys @ l # unreturned zs"
      using True by (simp add: ls unreturned_def)
    have un': "unreturned (ys @ ?g l # zs) = unreturned ys @ unreturned zs"
      by (simp add: unreturned_def)
    have a: "distinct (map copy_id ?cs')"
      using d by (simp add: map_updateOne_keep)
    have b: "\<forall>x\<in>set (ys @ ?g l # zs). (returnDate x = None) = (status x \<noteq> RETURNED)"
      using i2 ls by auto
    have e: "distinct (map copyId (unreturned (ys @ ?g l # zs)))"
      using i4 by (simp add: un un')
    have other: "copyId l2 \<noteq> copyId l" if "l2 \<in> set (unreturned (ys @ ?g l # zs))" for l2
    proof -
      from that have "copyId l2 \<in> copyId ` (set (unreturned ys) \<union> set (unreturned zs))"
        by (auto simp: un')
      moreover from i4 have "copyId l \<notin> copyId ` (set (unreturned ys) \<union> set (unreturned zs))"
        by (auto simp: un)
      ultimately show ?thesis by auto
    qed
    have g: "copy_status c' \<noteq> AVAILABLE"
      if "l2 \<in> set (unreturned (ys @ ?g l # zs))" "c' \<in> set ?cs'" "copy_id c' = copyId l2"
      for l2 c'
    proof -
      from set_updateOne [OF that(2)] other [OF that(1)] that(3)
      have "c' \<in> set (bookCopies s)" by auto
      moreover from that(1) have "l2 \<in> set (unreturned (loans s))" by (auto simp: un un')
      ultimately show ?thesis using i3 that(3) by blast
    qed
    have "storeInv (s\<lparr>loans := ys @ ?g l # zs, bookCopies := ?cs'\<rparr>)"
      using a b e g unfolding storeInv_def oneLoanPerCopy_def by (simp; blast)
    with Some True upd show ?thesis by (simp add: returnLoan_def Let_def)
  qed
qed

lemma storeInv_cascade:
  assumes inv: "storeInv s"
  shows "storeInv (s\<lparr>bookCopies := freeCopies now
            (filter (\<lambda>l. userId l = uid \<and> (status l = BORROWED \<or> status l = OVERDUE)) (loans s))
            (bookCopies s),
          loans := deleteMany (\<lambda>l. userId l = uid) (loans s)\<rparr>)"
proof -
  define ul where
    "ul = filter (\<lambda>l. userId l = uid \<and> (status l = BORROWED \<or> status l = OVERDUE)) (loans s)"
  define ls' where "ls' = deleteMany (\<lambda>l. userId l = uid) (loans s)"
  define cs' where "cs' = freeCopies now ul (bookCopies s)"
  from inv have d: "distinct (map copy_id (bookCopies s))"
    and i2: "\<forall>l\<in>set (loans s). (returnDate l = None) = (status l \<noteq> RETURNED)"
    and i3: "\<forall>l\<in>set (unreturned (loans s)). \<forall>c\<in>set (bookCopies s).
               copy_id c = copyId l \<longrightarrow> copy_status c \<noteq> AVAILABLE"
    and i4: "distinct (map copyId (unreturned (loans s)))"
    by (simp_all add: storeInv_def oneLoanPerCopy_def)
  have un: "unreturned ls' = filter (\<lambda>l. userId l \<noteq> uid) (unreturned (loans s))"
    unfolding ls'_def unreturned_def deleteMany_def filter_filter
    by (rule filter_cong) auto
  have a: "distinct (map copy_id cs')"
    using d by (simp add: cs'_def map_copy_id_freeCopies)
  have b: "\<forall>x\<in>set ls'. (returnDate x = None) = (status x \<noteq> RETURNED)"
    using i2 by (simp add: ls'_def deleteMany_def)
  have e: "distinct (map copyId (unreturned ls'))"
    using i4 by (simp add: un distinct_map_filter)
  have inj: "inj_on copyId (set (unreturned (loans s)))"
    using i4 by (simp add: distinct_map)
  have g: "copy_status c' \<noteq> AVAILABLE"
    if l2': "l2 \<in> set (unreturned ls')" and c'_in: "c' \<in> set cs'"
      and same: "copy_id c' = copyId l2" for l2 c'
  proof -
    from l2' have l2: "l2 \<in> set (unreturned (loans s))" "userId l2 \<noteq> uid"
      by (simp_all add: un)
    have notin: "copyId l2 \<notin> copyId ` set ul"
    proof
      assume "copyId l2 \<in> copyId ` set ul"
      then obtain l where "l \<in> set ul" "copyId l2 = copyId l" by blast
      then have l: "l \<in> set (loans s)" "userId l = uid" "status l \<noteq> RETURNED"
        "copyId l = copyId l2" by (auto simp: ul_def)
      from i2 l(1) l(3) have "returnDate l = None" by blast
      with l(1) have "l \<in> set (unreturned (loans s))" by (simp add: unreturned_def)
      from inj_onD [OF inj l(4) this l2(1)] have "l = l2" .
      with l(2) l2(2) show False by simp
    qed
    from set_freeCopies [OF c'_in [unfolded cs'_def]]
    have "c' \<in> set (bookCopies s) \<or> copyId l2 \<in> copyId ` set ul"
      unfolding same .
    with notin have "c' \<in> set (bookCopies s)" by blast
    with i3 l2(1) same show ?thesis by blast
  qed
  have "storeInv (s\<lparr>bookCopies := cs', loans := ls'\<rparr>)"
    unfolding storeInv_def oneLoanPerCopy_def using a b e g by (simp; blast)
  then show ?thesis by (simp add: cs'_def ls'_def ul_def)
qed

lemma storeInv_deleteUser:
  assumes inv: "storeInv s"
  shows "storeInv (snd (deleteUser rx now req uid s))"
  using inv storeInv_cascade [OF inv, where now = now and uid = uid]
  by (auto simp: deleteUser_def Let_def split: option.splits)

lemma storeInv_handle: "storeInv s \<Longrightarrow> storeInv (handle fmt rx r s)"
  by (cases r) (simp_all add: storeInv_createLoan storeInv_returnLoan storeInv_deleteUser)

lemma storeInv_run: "storeInv s \<Longrightarrow> storeInv (sequentialRun fmt rx rs s)"
  unfolding sequentialRun_def by (induction rs arbitrary: s) (simp_all add: storeInv_handle)

text \<open>
  From a store without loans whose copies have distinct ids, requests that do not overlap
  leave at most one unreturned loan for any copy.
\<close>

lemma sequentialRun_oneLoanPerCopy:
  assumes "loans s0 = []" and "distinct (map copy_id (bookCopies s0))"
  shows "oneLoanPerCopy (sequentialRun fmt rx rs s0)"
proof -
  from assms have "storeInv s0"
    by (simp add: storeInv_def oneLoanPerCopy_def unreturned_def)
  then have "storeInv (sequentialRun fmt rx rs s0)" by (rule storeInv_run)
  then show ?thesis by (simp add: storeInv_def)
qed

section \<open>The example stores, computed\<close>

lemma createLoan_store0:
  "snd (createLoan exampleLocaleDate 1000 ''l1'' ''n1'' ''u1'' ''b1'' (Some 2000) store0) = storeLent"
  by (simp add: sample_defs createLoan_def findOneAndUpdate_def findOne_def insertOne_def
        loanCreatedMessage_def withRelations_def Let_def)

lemma returnLoan_storeLent:
  "returnLoan 1500 ''l1'' storeLent = (Reply 204 (), storeReturned)"
  by (simp add: sample_defs returnLoan_def findOne_def Let_def)

lemma exampleRun_result:
  "map copyId (filter (\<lambda>l. returnDate l = None)
      (loans (sequentialRun exampleLocaleDate exampleRegex exampleRun store0))) = [''c2'']"
  by (simp add: sequentialRun_def exampleRun_def sample_defs createLoan_def returnLoan_def deleteUser_def
        findOneAndUpdate_def findOne_def insertOne_def freeCopies_def deleteMany_def
        loanCreatedMessage_def withRelations_def Let_def)

lemmas eval_defs = createLoan_def returnLoan_def findOneAndUpdate_def findOne_def insertOne_def
  loanCreatedMessage_def withRelations_def returnLoan_find_def returnLoan_updateLoan_def
  returnLoan_updateCopy_def Let_def

lemma raceFirstReturn_eq: "raceFirstReturn = storeReturned"
  by (simp add: raceFirstReturn_def sample_defs eval_defs)

lemma raceSecondLoan_loans:
  "map (\<lambda>l. (loan_id l, copyId l, returnDate l)) (loans raceSecondLoan)
     = [(''l1'', ''c1'', Some 1500), (''l2'', ''c1'', None)]"
  "map (\<lambda>c. (copy_id c, copy_status c)) (bookCopies raceSecondLoan)
     = [(''c1'', BORROWED_COPY), (''c2'', AVAILABLE)]"
  by (simp_all add: raceSecondLoan_def raceFirstReturn_eq sample_defs eval_defs)

section \<open>The loan lifecycle evaluator: effective status\<close>

text \<open>
  Claim C1. For every loan record that the store can hold and every current time,
  \<^verbatim>\<open>enrichLoansWithStatus\<close> changes only the status and computes it as: \<^verbatim>\<open>RETURNED\<close> if
  \<^verbatim>\<open>returnDate\<close> is set, regardless of the due date; otherwise \<^verbatim>\<open>OVERDUE\<close> if the due
  date is strictly before the current time; otherwise \<^verbatim>\<open>BORROWED\<close>. For a returned loan
  the evaluator trusts the stored status, and a loan with a return date is stored as
  \<^verbatim>\<open>RETURNED\<close>: the return date is written only by \<^verbatim>\<open>returnLoan\<close>, in one write with
  that status. This holds after every sequence of the handlers' writes from a store without
  loans, and of the rows built from such a store (\<open>stored_loans_returnedAsStored\<close>).
\<close>

theorem enrichLoansWithStatus_effective:
  assumes "\<forall>l\<in>set ls. returnDate l \<noteq> None \<longrightarrow> status l = RETURNED"
  shows "enrichLoansWithStatus now ls =
           map (\<lambda>l. l\<lparr>status := (if returnDate l \<noteq> None then RETURNED
                                  else if dueDate l < now then OVERDUE else BORROWED)\<rparr>) ls"
  unfolding enrichLoansWithStatus_def
proof (rule map_cong [OF refl])
  fix l assume "l \<in> set ls"
  with assms have "returnDate l \<noteq> None \<longrightarrow> l\<lparr>status := RETURNED\<rparr> = l" by auto
  then show "enrichLoan now l =
      l\<lparr>status := (if returnDate l \<noteq> None then RETURNED
                    else if dueDate l < now then OVERDUE else BORROWED)\<rparr>"
    by (auto simp: enrichLoan_def)
qed

text \<open>
  The returned loan of \<open>storeReturned\<close>, due at 2000, is \<^verbatim>\<open>RETURNED\<close> before and after
  its due date; the unreturned loan of \<open>storeLent\<close> is overdue at 3000 and not yet at 2000,
  the due instant itself (the comparison is strict).
\<close>

theorem enrichLoansWithStatus_effective_witness:
  "map (\<lambda>l. (returnDate l, status l, dueDate l)) (loans storeReturned)
     = [(Some 1500, RETURNED, 2000)] \<and>
   map status (enrichLoansWithStatus 1600 (loans storeReturned)) = [RETURNED] \<and>
   map status (enrichLoansWithStatus 3000 (loans storeReturned)) = [RETURNED] \<and>
   map (\<lambda>l. (returnDate l, status l, dueDate l)) (loans storeLent) = [(None, BORROWED, 2000)] \<and>
   map status (enrichLoansWithStatus 3000 (loans storeLent)) = [OVERDUE] \<and>
   map status (enrichLoansWithStatus 2000 (loans storeLent)) = [BORROWED]"
proof -
  have a: "\<forall>l\<in>set (loans storeReturned). returnDate l \<noteq> None \<longrightarrow> status l = RETURNED"
    by (simp add: sample_defs)
  have b: "\<forall>l\<in>set (loans storeLent). returnDate l \<noteq> None \<longrightarrow> status l = RETURNED"
    by (simp add: sample_defs)
  from enrichLoansWithStatus_effective [OF a, of 1600]
    enrichLoansWithStatus_effective [OF a, of 3000]
    enrichLoansWithStatus_effective [OF b, of 3000]
    enrichLoansWithStatus_effective [OF b, of 2000]
  show ?thesis by (simp add: sample_defs)
qed

section \<open>Loan creation without an available copy\<close>

text \<open>
  Claim C2. In every state in which no copy of the requested book has status
  \<^verbatim>\<open>AVAILABLE\<close>, \<^verbatim>\<open>createLoan\<close> answers 400 "No copies available for this book" and
  the whole store, in particular the loans and the copies, is unchanged.
\<close>

theorem createLoan_no_copies:
  assumes "\<forall>c\<in>set (bookCopies s). copy_bookId c = bid \<longrightarrow> copy_status c \<noteq> AVAILABLE"
  shows "createLoan fmt now newLoanId newNotificationId uid bid due s =
           (Failure 400 ''No copies available for this book'', s)"
proof -
  have "findOne (\<lambda>c. copy_bookId c = bid \<and> copy_status c = AVAILABLE) (bookCopies s) = None"
    using assms by (auto simp: findOne_None_iff)
  then show ?thesis by (simp add: createLoan_def findOneAndUpdate_def)
qed

theorem createLoan_no_copies_witness:
  "map copy_status (filter (\<lambda>c. copy_bookId c = ''b1'') (bookCopies storeAllOut))
     = [BORROWED_COPY, MAINTENANCE] \<and>
   createLoan exampleLocaleDate 1000 ''l1'' ''n1'' ''u1'' ''b1'' (Some 2000) storeAllOut =
     (Failure 400 ''No copies available for this book'', storeAllOut)"
proof -
  have h: "\<forall>c\<in>set (bookCopies storeAllOut). copy_bookId c = ''b1'' \<longrightarrow> copy_status c \<noteq> AVAILABLE"
    by (simp add: sample_defs storeAllOut_def)
  have "map copy_status (filter (\<lambda>c. copy_bookId c = ''b1'') (bookCopies storeAllOut))
          = [BORROWED_COPY, MAINTENANCE]"
    by (simp add: sample_defs storeAllOut_def)
  with createLoan_no_copies [OF h] show ?thesis by simp
qed

section \<open>Loan return\<close>

text \<open>
  Claim C3. When no stored loan has the requested id, \<^verbatim>\<open>returnLoan\<close> answers 404 "Loan
  not found"; when the loan found for the id already has a \<^verbatim>\<open>returnDate\<close>, it answers
  400 "Loan already returned". In both cases the whole store is unchanged.
\<close>

theorem returnLoan_rejects:
  "(findOne (\<lambda>l. loan_id l = lid) (loans s) = None \<longrightarrow>
      returnLoan now lid s = (Failure 404 ''Loan not found'', s)) \<and>
   (\<forall>l. findOne (\<lambda>l. loan_id l = lid) (loans s) = Some l \<and> returnDate l \<noteq> None \<longrightarrow>
      returnLoan now lid s = (Failure 400 ''Loan already returned'', s))"
  by (auto simp: returnLoan_def)

theorem returnLoan_rejects_witness:
  "findOne (\<lambda>l. loan_id l = ''l9'') (loans storeReturned) = None \<and>
   returnLoan 1600 ''l9'' storeReturned = (Failure 404 ''Loan not found'', storeReturned) \<and>
   map_option returnDate (findOne (\<lambda>l. loan_id l = ''l1'') (loans storeReturned))
     = Some (Some 1500) \<and>
   returnLoan 1600 ''l1'' storeReturned = (Failure 400 ''Loan already returned'', storeReturned)"
proof -
  have a: "findOne (\<lambda>l. loan_id l = ''l9'') (loans storeReturned) = None"
    by (simp add: sample_defs findOne_def)
  have b: "findOne (\<lambda>l. loan_id l = ''l1'') (loans storeReturned)
             = Some (loan1\<lparr>returnDate := Some 1500, status := RETURNED, updatedAt := 1500\<rparr>)"
    by (simp add: sample_defs findOne_def)
  from returnLoan_rejects [where lid = "''l9''" and s = storeReturned and now = 1600] a
  have "returnLoan 1600 ''l9'' storeReturned = (Failure 404 ''Loan not found'', storeReturned)"
    by simp
  moreover
  from returnLoan_rejects [where lid = "''l1''" and s = storeReturned and now = 1600] b
  have "returnLoan 1600 ''l1'' storeReturned
          = (Failure 400 ''Loan already returned'', storeReturned)"
    by simp
  ultimately show ?thesis using a b by simp
qed

text \<open>
  Claim C4. For every loan that \<^verbatim>\<open>returnLoan\<close> finds for the id and whose \<^verbatim>\<open>returnDate\<close>
  is \<^verbatim>\<open>null\<close>, the handler succeeds with 204; afterwards the loan stored under the id is
  the old one with \<^verbatim>\<open>returnDate\<close> set to the current time (so not \<^verbatim>\<open>null\<close>) and status
  \<^verbatim>\<open>RETURNED\<close>, and the copy stored under the loan's \<^verbatim>\<open>copyId\<close> is the old one with
  status \<^verbatim>\<open>AVAILABLE\<close>.
\<close>

theorem returnLoan_success:
  assumes found: "findOne (\<lambda>l. loan_id l = lid) (loans s) = Some l"
      and notReturned: "returnDate l = None"
  shows "\<exists>s'. returnLoan now lid s = (Reply 204 (), s') \<and>
           findOne (\<lambda>l. loan_id l = lid) (loans s') =
             Some (l\<lparr>returnDate := Some now, status := RETURNED, updatedAt := now\<rparr>) \<and>
           (\<forall>c. findOne (\<lambda>c. copy_id c = copyId l) (bookCopies s) = Some c \<longrightarrow>
                findOne (\<lambda>c. copy_id c = copyId l) (bookCopies s') =
                  Some (c\<lparr>copy_status := AVAILABLE, copy_updatedAt := now\<rparr>))"
  using found notReturned
  by (simp add: returnLoan_def Let_def
        findOne_updateOne_key [where key = loan_id] findOne_updateOne_key [where key = copy_id])

theorem returnLoan_success_witness:
  "findOne (\<lambda>l. loan_id l = ''l1'') (loans storeLent) = Some loan1 \<and>
   returnDate loan1 = None \<and>
   findOne (\<lambda>c. copy_id c = copyId loan1) (bookCopies storeLent)
     = Some (copyA\<lparr>copy_status := BORROWED_COPY, copy_updatedAt := 1000\<rparr>) \<and>
   (\<exists>s'. returnLoan 1500 ''l1'' storeLent = (Reply 204 (), s') \<and>
      findOne (\<lambda>l. loan_id l = ''l1'') (loans s') =
        Some (loan1\<lparr>returnDate := Some 1500, status := RETURNED, updatedAt := 1500\<rparr>) \<and>
      findOne (\<lambda>c. copy_id c = copyId loan1) (bookCopies s') =
        Some (copyA\<lparr>copy_status := AVAILABLE, copy_updatedAt := 1500\<rparr>))"
proof -
  have a: "findOne (\<lambda>l. loan_id l = ''l1'') (loans storeLent) = Some loan1"
    by (simp add: sample_defs findOne_def)
  have b: "returnDate loan1 = None"
    by (simp add: loan1_def)
  have c: "findOne (\<lambda>c. copy_id c = copyId loan1) (bookCopies storeLent)
             = Some (copyA\<lparr>copy_status := BORROWED_COPY, copy_updatedAt := 1000\<rparr>)"
    by (simp add: sample_defs findOne_def)
  from returnLoan_success [OF a b, of 1500] c a b show ?thesis
    by (auto simp: copyA_def)
qed

section \<open>The user deletion cascade\<close>

text \<open>
  Claim C5. After a successful \<^verbatim>\<open>deleteUser\<close> for the user id \<open>uid\<close>, no loan and no
  notification with that \<^verbatim>\<open>userId\<close> is stored, and for every loan of that user that was
  active, the copy stored under the loan's \<^verbatim>\<open>copyId\<close> has status \<^verbatim>\<open>AVAILABLE\<close>.
  The handler selects the active loans by their stored status (\<^verbatim>\<open>BORROWED\<close> or
  \<^verbatim>\<open>OVERDUE\<close>, that is, not \<^verbatim>\<open>RETURNED\<close>). In a store that keeps the data model's
  rule that an unreturned loan does not have the stored status \<^verbatim>\<open>RETURNED\<close> (\<open>storeInv\<close>
  contains it and the loan operations preserve it), these are all the loans of the user
  whose \<^verbatim>\<open>returnDate\<close> is \<^verbatim>\<open>null\<close>.
\<close>

theorem deleteUser_cascade:
  assumes ok: "deleteUser rx now req uid s = (Reply 204 (), s')"
  shows "(\<forall>l\<in>set (loans s'). userId l \<noteq> uid) \<and>
         (\<forall>n\<in>set (notifications s'). n_userId n \<noteq> uid) \<and>
         (\<forall>l\<in>set (loans s). userId l = uid \<and> status l \<noteq> RETURNED \<longrightarrow>
            (\<forall>c. findOne (\<lambda>c. copy_id c = copyId l) (bookCopies s') = Some c \<longrightarrow>
                 copy_status c = AVAILABLE)) \<and>
         ((\<forall>l\<in>set (loans s). returnDate l = None \<longrightarrow> status l \<noteq> RETURNED) \<longrightarrow>
          (\<forall>l\<in>set (loans s). userId l = uid \<and> returnDate l = None \<longrightarrow>
            (\<forall>c. findOne (\<lambda>c. copy_id c = copyId l) (bookCopies s') = Some c \<longrightarrow>
                 copy_status c = AVAILABLE)))"
proof -
  let ?userLoans =
    "filter (\<lambda>l. userId l = uid \<and> (status l = BORROWED \<or> status l = OVERDUE)) (loans s)"
  from ok have l': "loans s' = deleteMany (\<lambda>l. userId l = uid) (loans s)"
    and c': "bookCopies s' = freeCopies now ?userLoans (bookCopies s)"
    and n': "set (notifications s') \<subseteq> set (deleteMany (\<lambda>n. n_userId n = uid) (notifications s))"
    by (auto simp: deleteUser_def Let_def deleteMany_def split: option.splits if_splits)
  have 1: "\<forall>l\<in>set (loans s'). userId l \<noteq> uid"
    by (simp add: l' deleteMany_def)
  have 2: "\<forall>n\<in>set (notifications s'). n_userId n \<noteq> uid"
    using n' by (auto simp: deleteMany_def)
  have 3: "copy_status c = AVAILABLE"
    if "l \<in> set (loans s)" "userId l = uid" "status l \<noteq> RETURNED"
       "findOne (\<lambda>c. copy_id c = copyId l) (bookCopies s') = Some c" for l c
  proof -
    from that(3) have "status l = BORROWED \<or> status l = OVERDUE" by (rule status_cases)
    with that have "copyId l \<in> copyId ` set ?userLoans" by auto
    with that(4) show ?thesis
      unfolding c' findOne_freeCopies by auto
  qed
  have 4: "\<forall>l\<in>set (loans s). userId l = uid \<and> status l \<noteq> RETURNED \<longrightarrow>
            (\<forall>c. findOne (\<lambda>c. copy_id c = copyId l) (bookCopies s') = Some c \<longrightarrow>
                 copy_status c = AVAILABLE)"
    using 3 by blast
  from 4 have 5: "(\<forall>l\<in>set (loans s). returnDate l = None \<longrightarrow> status l \<noteq> RETURNED) \<longrightarrow>
          (\<forall>l\<in>set (loans s). userId l = uid \<and> returnDate l = None \<longrightarrow>
            (\<forall>c. findOne (\<lambda>c. copy_id c = copyId l) (bookCopies s') = Some c \<longrightarrow>
                 copy_status c = AVAILABLE))"
    by blast
  from 1 2 4 5 show ?thesis by (intro conjI)
qed

text \<open>
  The administrator removes the reader who holds the first copy: the reader's loan and
  notification are gone and the copy is available again.
\<close>

theorem deleteUser_cascade_witness:
  "deleteUser exampleRegex 3000 (Some adminToken) ''u1'' storeLent = (Reply 204 (), storeDeleted) \<and>
   map userId (loans storeLent) = [''u1''] \<and>
   map returnDate (loans storeLent) = [None] \<and>
   map status (loans storeLent) = [BORROWED] \<and>
   map n_userId (notifications storeLent) = [''u1''] \<and>
   map_option copy_status (findOne (\<lambda>c. copy_id c = copyId loan1) (bookCopies storeLent))
     = Some BORROWED_COPY \<and>
   filter (\<lambda>l. userId l = ''u1'') (loans storeDeleted) = [] \<and>
   filter (\<lambda>n. n_userId n = ''u1'') (notifications storeDeleted) = [] \<and>
   map_option copy_status (findOne (\<lambda>c. copy_id c = copyId loan1) (bookCopies storeDeleted))
     = Some AVAILABLE"
proof -
  have a: "deleteUser exampleRegex 3000 (Some adminToken) ''u1'' storeLent
             = (Reply 204 (), storeDeleted)"
    by (simp add: sample_defs storeDeleted_def deleteUser_def findOne_def freeCopies_def deleteMany_def
          loanCreatedMessage_def Let_def)
  have b: "\<forall>l\<in>set (loans storeLent). returnDate l = None \<longrightarrow> status l \<noteq> RETURNED"
    by (simp add: sample_defs)
  have c: "loan1 \<in> set (loans storeLent)" "userId loan1 = ''u1''" "returnDate loan1 = None"
    by (simp_all add: sample_defs)
  have d: "map userId (loans storeLent) = [''u1'']"
    "map returnDate (loans storeLent) = [None]"
    "map status (loans storeLent) = [BORROWED]"
    "map n_userId (notifications storeLent) = [''u1'']"
    "map_option copy_status (findOne (\<lambda>c. copy_id c = copyId loan1) (bookCopies storeLent))
       = Some BORROWED_COPY"
    by (simp_all add: sample_defs findOne_def)
  obtain c' where e:
    "findOne (\<lambda>c. copy_id c = copyId loan1) (bookCopies storeDeleted) = Some c'"
    by (simp add: sample_defs storeDeleted_def findOne_def)
  from deleteUser_cascade [OF a] b
  have 1: "\<forall>l\<in>set (loans storeDeleted). userId l \<noteq> ''u1''"
    and 2: "\<forall>n\<in>set (notifications storeDeleted). n_userId n \<noteq> ''u1''"
    and 3: "copy_status c' = AVAILABLE"
    using c e by blast+
  from 1 have "filter (\<lambda>l. userId l = ''u1'') (loans storeDeleted) = []"
    by (simp add: filter_empty_conv)
  moreover from 2 have "filter (\<lambda>n. n_userId n = ''u1'') (notifications storeDeleted) = []"
    by (simp add: filter_empty_conv)
  ultimately show ?thesis using a d e 3 by simp
qed

section \<open>At most one unreturned loan for a copy\<close>

text \<open>
  Claim C6 fails on the code when two \<^verbatim>\<open>returnLoan\<close> requests for one loan overlap.
  \<^verbatim>\<open>createLoan\<close> takes its copy in one atomic \<^verbatim>\<open>findOneAndUpdate\<close>, but
  \<^verbatim>\<open>returnLoan\<close> checks the loan in one call and frees the copy, unconditionally, in a
  later one. In \<open>storeLent\<close>, which \<^verbatim>\<open>createLoan\<close> makes of the store \<open>store0\<close> without
  loans, both requests find the reader's loan unreturned. The first
  writes, and the administrator's \<^verbatim>\<open>createLoan\<close> gets the freed copy \<open>c1\<close> (loan \<open>l2\<close>).
  Then the second request writes: it frees \<open>c1\<close> again, while \<open>l2\<close> holds it. The reader's
  \<^verbatim>\<open>createLoan\<close> gets \<open>c1\<close> as well (loan \<open>l3\<close>): two loans with \<^verbatim>\<open>returnDate\<close>
  \<^verbatim>\<open>null\<close> reference the copy \<open>c1\<close>. For requests that do not overlap the claim holds
  (\<open>sequentialRun_oneLoanPerCopy\<close>).
\<close>

theorem returnLoan_race:
  "loans store0 = [] \<and>
   snd (createLoan exampleLocaleDate 1000 ''l1'' ''n1'' ''u1'' ''b1'' (Some 2000) store0) = storeLent \<and>
   returnLoan_find ''l1'' storeLent = Inr loan1 \<and>
   map (\<lambda>l. (loan_id l, copyId l, returnDate l)) (loans raceSecondLoan)
     = [(''l1'', ''c1'', Some 1500), (''l2'', ''c1'', None)] \<and>
   map (\<lambda>c. (copy_id c, copy_status c)) (bookCopies raceSecondReturn)
     = [(''c1'', AVAILABLE), (''c2'', AVAILABLE)] \<and>
   map (\<lambda>l. (loan_id l, copyId l, returnDate l)) (loans raceThirdLoan)
     = [(''l1'', ''c1'', Some 1700), (''l2'', ''c1'', None), (''l3'', ''c1'', None)] \<and>
   \<not> oneLoanPerCopy raceThirdLoan"
  using createLoan_store0
  by (simp add: raceThirdLoan_def raceSecondReturn_def raceSecondLoan_def raceFirstReturn_eq
        sample_defs eval_defs oneLoanPerCopy_def unreturned_def)

section \<open>Overdue reminders\<close>

text \<open>
  Claim C7. When \<^verbatim>\<open>sendOverdueReminder\<close> succeeds for the loan found for the id, that loan
  was effectively overdue (unreturned and due strictly before the current time), the loan
  stored under the id afterwards has \<^verbatim>\<open>reminderCount\<close> equal to the previous count plus
  one, an absent count counting as zero (and \<^verbatim>\<open>reminderSent\<close>, \<^verbatim>\<open>lastReminderAt\<close>,
  \<^verbatim>\<open>updatedAt\<close> set), and exactly one notification was appended, of type
  \<^verbatim>\<open>OVERDUE_REMINDER\<close> and for the loan's user.
\<close>

theorem sendOverdueReminder_success:
  assumes found: "findOne (\<lambda>l. loan_id l = lid) (loans s) = Some l"
      and ok: "sendOverdueReminder fmt now newNotificationId lid s = (Reply 204 (), s')"
  shows "returnDate l = None \<and> dueDate l < now \<and>
         findOne (\<lambda>l. loan_id l = lid) (loans s') =
           Some (l\<lparr>reminderSent := True,
                   reminderCount := Some ((case reminderCount l of None \<Rightarrow> 0 | Some k \<Rightarrow> k) + 1),
                   lastReminderAt := Some now, updatedAt := now\<rparr>) \<and>
         (\<exists>n. notifications s' = notifications s @ [n] \<and> n_type n = OVERDUE_REMINDER \<and>
             n_userId n = userId l)"
  using assms
  by (auto simp: sendOverdueReminder_def Let_def insertOne_def
        findOne_updateOne_key [where key = loan_id]
        split: option.splits if_splits)

text \<open>
  Two reminders for the reader's loan at times 3000 and 3100: the first sets the absent
  count to 1, the second sets it to 2.
\<close>

theorem sendOverdueReminder_success_witness:
  "findOne (\<lambda>l. loan_id l = ''l1'') (loans storeLent) = Some loan1 \<and>
   reminderCount loan1 = None \<and>
   fst (sendOverdueReminder exampleLocaleDate 3000 ''n2'' ''l1'' storeLent) = Reply 204 () \<and>
   map reminderCount (loans (snd (sendOverdueReminder exampleLocaleDate 3000 ''n2'' ''l1'' storeLent)))
     = [Some 1] \<and>
   map n_type (notifications (snd (sendOverdueReminder exampleLocaleDate 3000 ''n2'' ''l1'' storeLent)))
     = [LOAN_CREATED, OVERDUE_REMINDER] \<and>
   map reminderCount (loans (snd (sendOverdueReminder exampleLocaleDate 3100 ''n3'' ''l1''
       (snd (sendOverdueReminder exampleLocaleDate 3000 ''n2'' ''l1'' storeLent)))))
     = [Some 2]"
proof -
  define s1 where "s1 = snd (sendOverdueReminder exampleLocaleDate 3000 ''n2'' ''l1'' storeLent)"
  define s2 where "s2 = snd (sendOverdueReminder exampleLocaleDate 3100 ''n3'' ''l1'' s1)"
  let ?l1 = "loan1\<lparr>reminderSent := True, reminderCount := Some 1,
                    lastReminderAt := Some 3000, updatedAt := 3000\<rparr>"
  have a: "findOne (\<lambda>l. loan_id l = ''l1'') (loans storeLent) = Some loan1"
    by (simp add: sample_defs findOne_def)
  have r1: "fst (sendOverdueReminder exampleLocaleDate 3000 ''n2'' ''l1'' storeLent) = Reply 204 ()"
    by (simp add: sample_defs sendOverdueReminder_def findOne_def insertOne_def Let_def)
  then have ok1: "sendOverdueReminder exampleLocaleDate 3000 ''n2'' ''l1'' storeLent
                    = (Reply 204 (), s1)"
    by (simp add: s1_def prod_eq_iff)
  have ls1: "loans s1 = [?l1]" and ns1: "map n_id (notifications s1) = [''n1'', ''n2'']"
    and us1: "users s1 = users storeLent" and bs1: "books s1 = books storeLent"
    unfolding s1_def
    by (simp_all add: sample_defs sendOverdueReminder_def findOne_def insertOne_def Let_def)
  have b: "findOne (\<lambda>l. loan_id l = ''l1'') (loans s1) = Some ?l1"
    by (simp add: ls1 findOne_def loan1_def)
  have "fst (sendOverdueReminder exampleLocaleDate 3100 ''n3'' ''l1'' s1) = Reply 204 ()"
    using ns1
    by (simp add: sendOverdueReminder_def ls1 us1 bs1 findOne_def insertOne_def Let_def
          sample_defs)
  then have ok2: "sendOverdueReminder exampleLocaleDate 3100 ''n3'' ''l1'' s1 = (Reply 204 (), s2)"
    by (simp add: s2_def prod_eq_iff)
  have c: "reminderCount loan1 = None" by (simp add: loan1_def)
  from sendOverdueReminder_success [OF a ok1]
  have f1: "findOne (\<lambda>l. loan_id l = ''l1'') (loans s1) = Some ?l1"
    and n1: "\<exists>n. notifications s1 = notifications storeLent @ [n] \<and> n_type n = OVERDUE_REMINDER"
    using c by auto
  from sendOverdueReminder_success [OF b ok2]
  have f2: "findOne (\<lambda>l. loan_id l = ''l1'') (loans s2)
              = Some (?l1\<lparr>reminderSent := True, reminderCount := Some 2,
                          lastReminderAt := Some 3100, updatedAt := 3100\<rparr>)"
    by (simp add: loan1_def)
  have len2: "length (loans s2) = 1"
    using ok2 unfolding sendOverdueReminder_def
    by (auto simp: Let_def ls1 findOne_def loan1_def split: option.splits if_splits prod.splits)
  from len2 f2 have "map reminderCount (loans s2) = [Some 2]"
    by (cases "loans s2") (auto simp: findOne_def loan1_def split: if_splits)
  moreover from n1 have "map n_type (notifications s1) = [LOAN_CREATED, OVERDUE_REMINDER]"
    by (auto simp: sample_defs)
  moreover have "map reminderCount (loans s1) = [Some 1]" by (simp add: ls1)
  ultimately show ?thesis
    using a c r1 unfolding s1_def s2_def by simp
qed

text \<open>
  Claim C10. For every loan that \<^verbatim>\<open>sendOverdueReminder\<close> finds for the id and that is not
  effectively overdue (its \<^verbatim>\<open>returnDate\<close> is set, or its due date is not before the
  current time), the handler answers 400 "Only overdue loans can receive reminders" and
  the whole store, in particular the loans and the notifications, is unchanged.
\<close>

theorem sendOverdueReminder_not_overdue:
  assumes "findOne (\<lambda>l. loan_id l = lid) (loans s) = Some l"
      and "returnDate l \<noteq> None \<or> \<not> dueDate l < now"
  shows "sendOverdueReminder fmt now newNotificationId lid s =
           (Failure 400 ''Only overdue loans can receive reminders'', s)"
  using assms by (auto simp: sendOverdueReminder_def)

text \<open>
  Before the due date (and still at the due instant itself) the reader's loan gets no
  reminder; neither does the returned loan long after its due date.
\<close>

theorem sendOverdueReminder_not_overdue_witness:
  "findOne (\<lambda>l. loan_id l = ''l1'') (loans storeLent) = Some loan1 \<and>
   \<not> dueDate loan1 < 2000 \<and>
   sendOverdueReminder exampleLocaleDate 2000 ''n2'' ''l1'' storeLent =
     (Failure 400 ''Only overdue loans can receive reminders'', storeLent) \<and>
   map_option returnDate (findOne (\<lambda>l. loan_id l = ''l1'') (loans storeReturned))
     = Some (Some 1500) \<and>
   sendOverdueReminder exampleLocaleDate 9000 ''n2'' ''l1'' storeReturned =
     (Failure 400 ''Only overdue loans can receive reminders'', storeReturned)"
proof -
  have a: "findOne (\<lambda>l. loan_id l = ''l1'') (loans storeLent) = Some loan1"
    by (simp add: sample_defs findOne_def)
  have b: "returnDate loan1 \<noteq> None \<or> \<not> dueDate loan1 < 2000"
    by (simp add: loan1_def)
  have c: "findOne (\<lambda>l. loan_id l = ''l1'') (loans storeReturned)
             = Some (loan1\<lparr>returnDate := Some 1500, status := RETURNED, updatedAt := 1500\<rparr>)"
    by (simp add: sample_defs findOne_def)
  have d: "returnDate (loan1\<lparr>returnDate := Some 1500, status := RETURNED, updatedAt := 1500\<rparr>) \<noteq> None
           \<or> \<not> dueDate (loan1\<lparr>returnDate := Some 1500, status := RETURNED, updatedAt := 1500\<rparr>) < 9000"
    by simp
  from sendOverdueReminder_not_overdue [OF a b] sendOverdueReminder_not_overdue [OF c d] a c
  show ?thesis by (simp add: loan1_def)
qed

text \<open>
  Claim C8, as the code has it. Sending an overdue reminder does not reconcile the
  persisted status: whatever \<^verbatim>\<open>sendOverdueReminder\<close> answers, the stored status of every
  loan is what it was (the reminder write sets \<^verbatim>\<open>reminderSent\<close>, \<^verbatim>\<open>reminderCount\<close>,
  \<^verbatim>\<open>lastReminderAt\<close> and \<^verbatim>\<open>updatedAt\<close> only). And no read-path operation
  (\<^verbatim>\<open>getLoansForUser\<close>, \<^verbatim>\<open>getAdminLoans\<close>, \<^verbatim>\<open>getDashboardStats\<close>) writes the recomputed
  status, or anything else, to the store.
\<close>

theorem reminder_leaves_status:
  "map status (loans (snd (sendOverdueReminder fmt now newNotificationId lid s))) =
     map status (loans s) \<and>
   snd (getLoansForUser now req uid s) = s \<and>
   snd (getAdminLoans now s) = s \<and>
   snd (getDashboardStats now s) = s"
  by (auto simp: sendOverdueReminder_def getLoansForUser_def getAdminLoans_def
        getDashboardStats_def Let_def map_updateOne_keep
        split: option.splits prod.splits)

theorem reminder_leaves_status_witness:
  "map status (loans (snd (sendOverdueReminder exampleLocaleDate 3000 ''n2'' ''l1'' storeLent))) =
     [BORROWED] \<and>
   map status (loans storeLent) = [BORROWED] \<and>
   snd (getLoansForUser 3000 (Some aliceToken) ''u1'' storeLent) = storeLent \<and>
   snd (getAdminLoans 3000 storeLent) = storeLent \<and>
   snd (getDashboardStats 3000 storeLent) = storeLent"
  using reminder_leaves_status
    [of exampleLocaleDate 3000 "''n2''" "''l1''" storeLent "Some aliceToken" "''u1''"]
  by (simp add: storeLent_def loan1_def)

text \<open>
  Claim C8 as stated fails: the reader's loan, due at 2000, is effectively overdue at 3000
  and the administrator's listing shows it as \<^verbatim>\<open>OVERDUE\<close>; the reminder is sent with
  success, and the stored status of the loan is still \<^verbatim>\<open>BORROWED\<close>.
\<close>

theorem reminder_reconciles_counterexample:
  "fst (sendOverdueReminder exampleLocaleDate 3000 ''n2'' ''l1'' storeLent) = Reply 204 () \<and>
   map status (loans (snd (sendOverdueReminder exampleLocaleDate 3000 ''n2'' ''l1'' storeLent)))
     = [BORROWED] \<and>
   map status (enrichLoansWithStatus 3000
      (loans (snd (sendOverdueReminder exampleLocaleDate 3000 ''n2'' ''l1'' storeLent))))
     = [OVERDUE]"
  by (simp add: sample_defs sendOverdueReminder_def findOne_def insertOne_def Let_def
        enrichLoansWithStatus_def enrichLoan_def)

section \<open>Notifications are only ever marked read\<close>

text \<open>
  Claim C9. \<^verbatim>\<open>markAsRead\<close> and \<^verbatim>\<open>markAllAsRead\<close> keep the stored notifications in
  place and in number, and each notification afterwards is either the one before or the
  one before with \<^verbatim>\<open>isRead\<close> set to true: every other field of every notification is
  unchanged.
\<close>

theorem markRead_only_isRead:
  "list_all2 (\<lambda>n n'. n' = n \<or> n' = n\<lparr>isRead := True\<rparr>)
      (notifications s) (notifications (snd (markAsRead req nid s))) \<and>
   list_all2 (\<lambda>n n'. n' = n \<or> n' = n\<lparr>isRead := True\<rparr>)
      (notifications s) (notifications (snd (markAllAsRead req s)))"
  by (auto simp: markAsRead_def markAllAsRead_def list_all2_refl
        intro!: list_all2_updateOne list_all2_updateMany split: option.splits)

text \<open>The reader marks the notification about the loan as read, alone and with all others.\<close>

theorem markRead_only_isRead_witness:
  "notifications storeLent = [notif1] \<and> isRead notif1 = False \<and>
   notifications (snd (markAsRead (Some aliceToken) ''n1'' storeLent)) = [notif1\<lparr>isRead := True\<rparr>] \<and>
   notifications (snd (markAllAsRead (Some aliceToken) storeLent)) = [notif1\<lparr>isRead := True\<rparr>] \<and>
   notifications (snd (markAsRead (Some adminToken) ''n1'' storeLent)) = [notif1]"
proof -
  have a: "notifications storeLent = [notif1]" "isRead notif1 = False"
    by (simp_all add: sample_defs)
  have b: "n_id notif1 = ''n1''" "n_userId notif1 = ''u1''"
    by (simp_all add: notif1_def)
  have c: "notifications (snd (markAsRead (Some adminToken) ''n1'' storeLent)) = [notif1]"
    by (simp add: markAsRead_def a b adminToken_def)
  have ne: "notif1\<lparr>isRead := True\<rparr> \<noteq> notif1"
  proof
    assume "notif1\<lparr>isRead := True\<rparr> = notif1"
    from arg_cong [OF this, of isRead] a(2) show False by simp
  qed
  have d: "notifications (snd (markAsRead (Some aliceToken) ''n1'' storeLent)) \<noteq> [notif1]"
    using ne by (simp add: markAsRead_def a(1) b aliceToken_def)
  have e: "notifications (snd (markAllAsRead (Some aliceToken) storeLent)) \<noteq> [notif1]"
    using ne a(2) by (simp add: markAllAsRead_def updateMany_def a(1) b aliceToken_def)
  from markRead_only_isRead [of storeLent "Some aliceToken" "''n1''"] a c d e
  show ?thesis
    by (auto simp: list_all2_Cons1)
qed

end
